theory Spec2Isabelle
  imports Main
begin

section \<open>Python values and helpers\<close>

text \<open>
  The repository is a Python command-line tool that talks to a GitLab host. Values decoded
  from the host's replies (\<^verbatim>\<open>response.json()\<close>) are untyped in the source, so the
  model keeps them as JSON values and writes out what the Python operations do on each shape.
  Numbers are integers here (no reply field the modelled code reads is fractional), and
  Python's \<^verbatim>\<open>None\<close> is \<open>JNull\<close>. An object is an association list that is read
  with \<open>map_of\<close>. Comparison of two values (\<^verbatim>\<open>==\<close>, \<^verbatim>\<open>in\<close>) is structural equality.
  Names keep those of the source, without the leading underscore of private methods.
\<close>

datatype json =
    JNull
  | JBool bool
  | JNum int
  | JStr string
  | JArr "json list"
  | JObj "(string \<times> json) list"

text \<open>The exceptions the modelled code can raise or meet.\<close>

datatype exn =
    HTTPError nat
  | RequestException
  | JSONDecodeError
  | TypeError
  | KeyError
  | IndexError
  | AttributeError
  | ValueError
  | FileNotFoundError
  | EOFError

text \<open>Sequencing of computations that may raise.\<close>

definition ebind :: "exn + 'a \<Rightarrow> ('a \<Rightarrow> exn + 'b) \<Rightarrow> exn + 'b" where
  "ebind m f = (case m of Inl e \<Rightarrow> Inl e | Inr x \<Rightarrow> f x)"

fun emap :: "('a \<Rightarrow> exn + 'b) \<Rightarrow> 'a list \<Rightarrow> exn + 'b list" where
  "emap f [] = Inr []"
| "emap f (x # xs) =
     (case f x of
        Inl e \<Rightarrow> Inl e
      | Inr y \<Rightarrow> (case emap f xs of Inl e \<Rightarrow> Inl e | Inr ys \<Rightarrow> Inr (y # ys)))"

text \<open>Truth value of a Python object (\<^verbatim>\<open>if x:\<close>).\<close>

fun truthy :: "json \<Rightarrow> bool" where
  "truthy JNull = False"
| "truthy (JBool b) = b"
| "truthy (JNum n) = (n \<noteq> 0)"
| "truthy (JStr s) = (s \<noteq> [])"
| "truthy (JArr xs) = (xs \<noteq> [])"
| "truthy (JObj kvs) = (kvs \<noteq> [])"

text \<open>\<^verbatim>\<open>x.get(key, default)\<close>: only a dict has the method.\<close>

fun dict_get :: "json \<Rightarrow> string \<Rightarrow> json \<Rightarrow> exn + json" where
  "dict_get (JObj kvs) key dflt = Inr (case map_of kvs key of Some v \<Rightarrow> v | None \<Rightarrow> dflt)"
| "dict_get _ key dflt = Inl AttributeError"

text \<open>\<^verbatim>\<open>x['key']\<close> with a string key.\<close>

fun subscript :: "json \<Rightarrow> string \<Rightarrow> exn + json" where
  "subscript (JObj kvs) key = (case map_of kvs key of Some v \<Rightarrow> Inr v | None \<Rightarrow> Inl KeyError)"
| "subscript _ key = Inl TypeError"

text \<open>\<^verbatim>\<open>x[0]\<close>.\<close>

fun first_item :: "json \<Rightarrow> exn + json" where
  "first_item (JArr xs) = (case xs of [] \<Rightarrow> Inl IndexError | x # _ \<Rightarrow> Inr x)"
| "first_item (JStr s) = (case s of [] \<Rightarrow> Inl IndexError | c # _ \<Rightarrow> Inr (JStr [c]))"
| "first_item (JObj kvs) = Inl KeyError"
| "first_item _ = Inl TypeError"

text \<open>
  The items a \<^verbatim>\<open>for\<close> loop or a comprehension visits: the elements of a list, the keys
  of a dict, the characters of a string; nothing else is iterable.
\<close>

fun py_iter :: "json \<Rightarrow> exn + json list" where
  "py_iter (JArr xs) = Inr xs"
| "py_iter (JObj kvs) = Inr (map JStr (remdups (map fst kvs)))"
| "py_iter (JStr s) = Inr (map (\<lambda>c. JStr [c]) s)"
| "py_iter _ = Inl TypeError"

text \<open>\<^verbatim>\<open>len(x)\<close>.\<close>

fun py_len :: "json \<Rightarrow> exn + nat" where
  "py_len (JArr xs) = Inr (length xs)"
| "py_len (JObj kvs) = Inr (length (remdups (map fst kvs)))"
| "py_len (JStr s) = Inr (length s)"
| "py_len _ = Inl TypeError"

fun is_str :: "json \<Rightarrow> bool" where
  "is_str (JStr s) = True"
| "is_str _ = False"

text \<open>
  \<^verbatim>\<open>str.lower()\<close> on ASCII text: the letters A to Z are mapped to a to z, every other
  character is kept.
\<close>

definition lower_char :: "char \<Rightarrow> char" where
  "lower_char c =
     (case map_of (zip ''ABCDEFGHIJKLMNOPQRSTUVWXYZ'' ''abcdefghijklmnopqrstuvwxyz'') c of
        Some d \<Rightarrow> d
      | None \<Rightarrow> c)"

definition lower :: "string \<Rightarrow> string" where
  "lower s = map lower_char s"

text \<open>\<^verbatim>\<open>s.endswith(suf)\<close>.\<close>

definition endswith :: "string \<Rightarrow> string \<Rightarrow> bool" where
  "endswith s suf = (length suf \<le> length s \<and> drop (length s - length suf) s = suf)"

text \<open>
  \<^verbatim>\<open>s.strip()\<close>: white space is removed at both ends. A character stands for a code
  point below 256; the white space of Python among these is the space, the controls 0x09
  to 0x0D and 0x1C to 0x1F, the next-line control 0x85 and the no-break space 0xA0.
\<close>

definition is_space :: "char \<Rightarrow> bool" where
  "is_space c =
     (c \<in> set [CHR '' '', CHR 0x09, CHR 0x0A, CHR 0x0B, CHR 0x0C, CHR 0x0D,
                 CHR 0x1C, CHR 0x1D, CHR 0x1E, CHR 0x1F, CHR 0x85, CHR 0xA0])"

definition strip :: "string \<Rightarrow> string" where
  "strip s = rev (dropWhile is_space (rev (dropWhile is_space s)))"


section \<open>The repository host and the client's state\<close>

text \<open>
  The calls the client sends. Each constructor stands for one method, URL and parameter
  set built by \<^verbatim>\<open>GitLabHandler\<close>; a ref that comes from a decoded reply is a JSON value.
  A commit carries its list of file actions (operation, path, content); a merge request
  carries source, target, title and the description when there is one.
\<close>

record file_action =
  action :: string
  file_path :: string
  content :: string

datatype request =
    GetProject
  | ListBranches
  | GetTree json
  | GetBranch string
  | DeleteBranch string
  | PostBranch string json
  | PostCommit string string "file_action list"
  | PostMergeRequest string json string "string option"
  | ListMergeRequests string
  | GetPipeline int
  | GetPipelineJobs int

text \<open>
  What \<^verbatim>\<open>requests.request\<close> gives: a response with a status code and a body that
  decodes to JSON or does not, or no response at all (connection failure, timeout).
\<close>

datatype reply = Reply nat "json option" | NoReply

datatype event = Sent request reply | Slept int

text \<open>
  The host is any deterministic machine over a state of its own: it answers a request,
  takes some time (in clock ticks) and moves to a new state. Time is counted in whole
  ticks; the clock never runs backwards.
\<close>

type_synonym 'w server = "request \<Rightarrow> 'w \<Rightarrow> (reply \<times> nat) \<times> 'w"

text \<open>
  The client's attributes (\<^verbatim>\<open>max_retries\<close>, the two memo fields), the clock, the log
  of calls and sleeps, the lines still to be read by \<^verbatim>\<open>input()\<close>, and the host's state.
\<close>

record 'w state =
  max_retries :: int
  project_info :: json
  default_branch :: json
  now :: int
  trace :: "event list"
  stdin :: "string list"
  remote :: 'w

type_synonym ('w, 'a) act = "'w state \<Rightarrow> (exn + 'a) \<times> 'w state"

text \<open>\<^verbatim>\<open>time.sleep(d)\<close>: a negative length raises \<^verbatim>\<open>ValueError\<close>.\<close>

definition sleep :: "int \<Rightarrow> ('w, unit) act" where
  "sleep d s =
     (if d < 0 then (Inl ValueError, s)
      else (Inr (), s\<lparr>now := now s + d, trace := trace s @ [Slept d]\<rparr>))"

text \<open>\<^verbatim>\<open>input()\<close>: the next line, \<^verbatim>\<open>EOFError\<close> at the end of the input.\<close>

definition input :: "('w, string) act" where
  "input s = (case stdin s of [] \<Rightarrow> (Inl EOFError, s) | l # ls \<Rightarrow> (Inr l, s\<lparr>stdin := ls\<rparr>))"

text \<open>\<^verbatim>\<open>response.json()\<close>.\<close>

definition response_json :: "json option \<Rightarrow> exn + json" where
  "response_json body = (case body of None \<Rightarrow> Inl JSONDecodeError | Some j \<Rightarrow> Inr j)"

section \<open>GitLabHandler\<close>

text \<open>
  \<^verbatim>\<open>_make_request\<close>: a missing response raises; \<^verbatim>\<open>raise_for_status\<close> raises
  \<^verbatim>\<open>HTTPError\<close> for the codes 400 to 599; otherwise the response is returned.
\<close>

definition raise_for_reply :: "reply \<Rightarrow> exn + json option" where
  "raise_for_reply rep =
     (case rep of
        NoReply \<Rightarrow> Inl RequestException
      | Reply code body \<Rightarrow>
          if 400 \<le> code \<and> code < 600 then Inl (HTTPError code) else Inr body)"

definition make_request :: "'w server \<Rightarrow> request \<Rightarrow> ('w, json option) act" where
  "make_request srv req s =
     (case srv req (remote s) of ((rep, dt), w') \<Rightarrow>
        (raise_for_reply rep,
         s\<lparr>now := now s + int dt, trace := trace s @ [Sent req rep], remote := w'\<rparr>))"

text \<open>
  \<^verbatim>\<open>_simple_retry\<close>: the loop over \<^verbatim>\<open>range(self.max_retries)\<close>, with the last error
  kept; \<^verbatim>\<open>raise last_error\<close> with no error kept (no attempt was made) is a
  \<^verbatim>\<open>TypeError\<close>.
\<close>

fun retry_loop :: "nat list \<Rightarrow> exn option \<Rightarrow> ('w, 'a) act \<Rightarrow> ('w, 'a) act" where
  "retry_loop [] last_error func s =
     (case last_error of None \<Rightarrow> (Inl TypeError, s) | Some e \<Rightarrow> (Inl e, s))"
| "retry_loop (attempt # rest) last_error func s =
     (case func s of
        (Inr v, s') \<Rightarrow> (Inr v, s')
      | (Inl e, s') \<Rightarrow>
          if int attempt < max_retries s' - 1 then
            (case sleep ((int attempt + 1) * 2) s' of
               (Inl e', s'') \<Rightarrow> (Inl e', s'')
             | (Inr _, s'') \<Rightarrow> retry_loop rest (Some e) func s'')
          else retry_loop rest (Some e) func s')"

definition simple_retry :: "('w, 'a) act \<Rightarrow> ('w, 'a) act" where
  "simple_retry func s = retry_loop [0 ..< nat (max_retries s)] None func s"

text \<open>\<^verbatim>\<open>get_project\<close>: the project document, memoised; \<^verbatim>\<open>None\<close> on any error.\<close>

definition get_project :: "'w server \<Rightarrow> 'w state \<Rightarrow> json \<times> 'w state" where
  "get_project srv s =
     (if project_info s = JNull then
        (case simple_retry (make_request srv GetProject) s of
           (Inl e, s') \<Rightarrow> (JNull, s')
         | (Inr body, s') \<Rightarrow>
             (case response_json body of
                Inl e \<Rightarrow> (JNull, s')
              | Inr j \<Rightarrow> (j, s'\<lparr>project_info := j\<rparr>)))
      else (project_info s, s))"

text \<open>\<^verbatim>\<open>get_default_branch\<close>, memoised; it has no handler of its own.\<close>

definition get_default_branch :: "'w server \<Rightarrow> ('w, json) act" where
  "get_default_branch srv s =
     (if default_branch s = JNull then
        (case get_project srv s of (info, s') \<Rightarrow>
           if truthy info then
             (case dict_get info ''default_branch'' (JStr ''main'') of
                Inl e \<Rightarrow> (Inl e, s')
              | Inr d \<Rightarrow> (Inr d, s'\<lparr>default_branch := d\<rparr>))
           else (Inr (JStr ''main''), s'\<lparr>default_branch := JStr ''main''\<rparr>))
      else (Inr (default_branch s), s))"

text \<open>
  \<^verbatim>\<open>get_available_branches\<close>. Inside the \<^verbatim>\<open>try\<close>: the call, the decoding, the
  comprehension over the names and the log line that joins the first five names (a
  \<^verbatim>\<open>TypeError\<close> when one of them is not a string). The handler returns the default
  branch alone.
\<close>

definition branch_names :: "json option \<Rightarrow> exn + json list" where
  "branch_names body =
     ebind (response_json body) (\<lambda>branches_data.
     ebind (py_iter branches_data) (\<lambda>items.
     ebind (emap (\<lambda>branch. subscript branch ''name'') items) (\<lambda>branches.
     if list_all is_str (take 5 branches) then Inr branches else Inl TypeError)))"

definition default_branch_only :: "'w server \<Rightarrow> ('w, json list) act" where
  "default_branch_only srv s =
     (case get_default_branch srv s of
        (Inl e, s') \<Rightarrow> (Inl e, s')
      | (Inr d, s') \<Rightarrow> (Inr [d], s'))"

definition get_available_branches :: "'w server \<Rightarrow> ('w, json list) act" where
  "get_available_branches srv s =
     (case simple_retry (make_request srv ListBranches) s of
        (Inl e, s') \<Rightarrow> default_branch_only srv s'
      | (Inr body, s') \<Rightarrow>
          (case branch_names body of
             Inl e \<Rightarrow> default_branch_only srv s'
           | Inr branches \<Rightarrow> (Inr branches, s')))"


text \<open>
  The comprehension \<^verbatim>\<open>[file['path'] for file in response.json() if file['type'] == 'blob']\<close>.
\<close>

fun blob_path_items :: "json list \<Rightarrow> exn + json list" where
  "blob_path_items [] = Inr []"
| "blob_path_items (file # rest) =
     (case subscript file ''type'' of
        Inl e \<Rightarrow> Inl e
      | Inr t \<Rightarrow>
          if t = JStr ''blob'' then
            (case subscript file ''path'' of
               Inl e \<Rightarrow> Inl e
             | Inr p \<Rightarrow>
                 (case blob_path_items rest of Inl e \<Rightarrow> Inl e | Inr ps \<Rightarrow> Inr (p # ps)))
          else blob_path_items rest)"

definition blob_paths :: "json option \<Rightarrow> exn + json list" where
  "blob_paths body =
     ebind (response_json body) (\<lambda>data. ebind (py_iter data) blob_path_items)"

text \<open>
  The loop over \<^verbatim>\<open>['main', 'master', 'develop']\<close> in \<^verbatim>\<open>get_file_list\<close>; its bare
  \<^verbatim>\<open>except\<close> swallows every failure of one candidate.
\<close>

fun try_common_branches ::
  "'w server \<Rightarrow> json \<Rightarrow> json list \<Rightarrow> string list \<Rightarrow> 'w state \<Rightarrow> json list \<times> 'w state" where
  "try_common_branches srv ref available_branches [] s = ([], s)"
| "try_common_branches srv ref available_branches (branch # rest) s =
     (if JStr branch \<in> set available_branches \<and> JStr branch \<noteq> ref then
        (case simple_retry (make_request srv (GetTree (JStr branch))) s of
           (Inl e, s') \<Rightarrow> try_common_branches srv ref available_branches rest s'
         | (Inr body, s') \<Rightarrow>
             (case blob_paths body of
                Inl e \<Rightarrow> try_common_branches srv ref available_branches rest s'
              | Inr files \<Rightarrow> (files, s')))
      else try_common_branches srv ref available_branches rest s)"

text \<open>
  What \<^verbatim>\<open>get_default_branch\<close> is bound to return without any call to the host, read
  off the two memo fields; \<open>None\<close> when the project document still has to be fetched or
  is not usable. The measures of the two recursive methods are built on it.
\<close>

definition cached_default :: "'w state \<Rightarrow> json option" where
  "cached_default s =
     (if default_branch s \<noteq> JNull then Some (default_branch s)
      else if project_info s = JNull then None
      else if truthy (project_info s) then
        (case dict_get (project_info s) ''default_branch'' (JStr ''main'') of
           Inl e \<Rightarrow> None
         | Inr d \<Rightarrow> Some d)
      else Some (JStr ''main''))"

definition fallback_pending :: "json \<Rightarrow> 'w state \<Rightarrow> nat" where
  "fallback_pending ref s =
     (case cached_default s of
        None \<Rightarrow> 1
      | Some d \<Rightarrow> if ref = JNull \<or> ref = d then 0 else 1)"

lemma retry_loop_request_fields:
  "retry_loop attempts le (make_request srv req) s = (r, s') \<Longrightarrow>
   max_retries s' = max_retries s \<and> project_info s' = project_info s
   \<and> default_branch s' = default_branch s \<and> stdin s' = stdin s"
proof (induction attempts arbitrary: le s)
  case Nil
  then show ?case by (auto split: option.splits)
next
  case (Cons attempt rest)
  obtain r1 s1 where mk: "make_request srv req s = (r1, s1)" by (metis surj_pair)
  then have f1: "max_retries s1 = max_retries s \<and> project_info s1 = project_info s
      \<and> default_branch s1 = default_branch s \<and> stdin s1 = stdin s"
    by (auto simp: make_request_def split: prod.splits)
  show ?case
  proof (cases r1)
    case (Inr v)
    with Cons.prems mk f1 show ?thesis by auto
  next
    case (Inl e)
    show ?thesis
    proof (cases "int attempt < max_retries s1 - 1")
      case True
      define s2 where "s2 = s1\<lparr>now := now s1 + (int attempt + 1) * 2,
          trace := trace s1 @ [Slept ((int attempt + 1) * 2)]\<rparr>"
      from Cons.prems mk Inl True
      have "retry_loop rest (Some e) (make_request srv req) s2 = (r, s')"
        by (simp add: sleep_def s2_def)
      from Cons.IH [OF this] f1 show ?thesis by (simp add: s2_def)
    next
      case False
      with Cons.prems mk Inl
      have "retry_loop rest (Some e) (make_request srv req) s1 = (r, s')" by simp
      from Cons.IH [OF this] f1 show ?thesis by simp
    qed
  qed
qed

lemma simple_retry_request_fields:
  "simple_retry (make_request srv req) s = (r, s') \<Longrightarrow>
   max_retries s' = max_retries s \<and> project_info s' = project_info s
   \<and> default_branch s' = default_branch s \<and> stdin s' = stdin s"
  unfolding simple_retry_def by (rule retry_loop_request_fields)

lemma simple_retry_cached_default:
  "simple_retry (make_request srv req) s = (r, s') \<Longrightarrow> cached_default s' = cached_default s"
  by (drule simple_retry_request_fields) (simp add: cached_default_def)

lemma get_default_branch_settles:
  "get_default_branch srv s = (Inr d, s') \<Longrightarrow> cached_default s' = Some d"
proof -
  assume a: "get_default_branch srv s = (Inr d, s')"
  show ?thesis
  proof (cases "default_branch s = JNull")
    case False
    with a show ?thesis by (auto simp: get_default_branch_def cached_default_def)
  next
    case True
    obtain info s1 where gp: "get_project srv s = (info, s1)" by (metis surj_pair)
    have inv: "default_branch s1 = JNull \<and> (info \<noteq> JNull \<longrightarrow> project_info s1 = info)"
    proof (cases "project_info s = JNull")
      case False
      with gp True show ?thesis by (auto simp: get_project_def)
    next
      case pn: True
      obtain r2 s2 where sr: "simple_retry (make_request srv GetProject) s = (r2, s2)"
        by (metis surj_pair)
      from simple_retry_request_fields [OF sr] True have "default_branch s2 = JNull" by simp
      with gp pn sr show ?thesis
        by (auto simp: get_project_def response_json_def split: sum.splits option.splits)
    qed
    show ?thesis
    proof (cases "truthy info")
      case False
      with a True gp show ?thesis
        by (auto simp: get_default_branch_def cached_default_def)
    next
      case t: True
      then have "info \<noteq> JNull" by auto
      with inv have pi: "project_info s1 = info" by simp
      from a True gp t obtain d' where
        dg: "dict_get info ''default_branch'' (JStr ''main'') = Inr d'"
        by (auto simp: get_default_branch_def split: sum.splits)
      with a True gp t have "d' = d" "s' = s1\<lparr>default_branch := d\<rparr>"
        by (auto simp: get_default_branch_def)
      with dg pi t \<open>info \<noteq> JNull\<close> show ?thesis
        by (auto simp: cached_default_def)
    qed
  qed
qed

lemma get_default_branch_stable:
  assumes "cached_default s = Some d"
  shows "\<exists>s'. get_default_branch srv s = (Inr d, s') \<and> cached_default s' = Some d
           \<and> trace s' = trace s \<and> remote s' = remote s \<and> now s' = now s
           \<and> stdin s' = stdin s \<and> max_retries s' = max_retries s"
proof (cases "default_branch s = JNull")
  case False
  with assms show ?thesis by (auto simp: get_default_branch_def cached_default_def)
next
  case True
  with assms have pn: "project_info s \<noteq> JNull"
    by (auto simp: cached_default_def split: if_splits)
  then have gp: "get_project srv s = (project_info s, s)" by (simp add: get_project_def)
  show ?thesis
  proof (cases "truthy (project_info s)")
    case False
    with assms True pn gp show ?thesis
      by (auto simp: get_default_branch_def cached_default_def)
  next
    case t: True
    with assms True pn have dg: "dict_get (project_info s) ''default_branch'' (JStr ''main'') = Inr d"
      by (auto simp: cached_default_def split: sum.splits)
    with True gp t pn show ?thesis
      by (auto simp: get_default_branch_def cached_default_def)
  qed
qed

lemma fallback_decreases:
  assumes first: "(if ref0 = JNull then get_default_branch srv s else (Inr ref0, s)) = (Inr ref, s0)"
    and keep: "cached_default s1 = cached_default s0"
    and dflt: "get_default_branch srv s1 = (Inr d, s2)"
    and neq: "ref \<noteq> d"
  shows "fallback_pending d s2 < fallback_pending ref0 s"
proof -
  from get_default_branch_settles [OF dflt] have "fallback_pending d s2 = 0"
    by (simp add: fallback_pending_def)
  moreover have "fallback_pending ref0 s = 1"
  proof (cases "cached_default s")
    case None
    then show ?thesis by (simp add: fallback_pending_def)
  next
    case (Some c)
    from get_default_branch_stable [OF Some, of srv] obtain t where
      t: "get_default_branch srv s = (Inr c, t)" "cached_default t = Some c" by blast
    have c0: "cached_default s0 = Some c \<and> ref = (if ref0 = JNull then c else ref0)"
      using first t Some by (auto split: if_splits)
    with keep have "cached_default s1 = Some c" by simp
    from get_default_branch_stable [OF this, of srv] dflt have "d = c" by auto
    with c0 neq have "ref0 \<noteq> JNull \<and> ref0 \<noteq> c" by (auto split: if_splits)
    with Some show ?thesis by (simp add: fallback_pending_def)
  qed
  ultimately show ?thesis by simp
qed

text \<open>
  \<^verbatim>\<open>get_file_list\<close>. A missing ref is replaced by the default branch before the
  \<^verbatim>\<open>try\<close>. A 404 on a ref other than the default branch lists the default branch
  instead (the recursive call); a 404 on the default branch itself goes through the common
  branch names; every other failure gives the empty list. The calls made inside the
  \<^verbatim>\<open>except HTTPError\<close> handler are not guarded: what they raise leaves the method.
\<close>

function get_file_list :: "'w server \<Rightarrow> json \<Rightarrow> ('w, json list) act" where
  "get_file_list srv ref0 s =
     (case (if ref0 = JNull then get_default_branch srv s else (Inr ref0, s)) of
        (Inl e, s0) \<Rightarrow> (Inl e, s0)
      | (Inr ref, s0) \<Rightarrow>
          (case simple_retry (make_request srv (GetTree ref)) s0 of
             (Inr body, s1) \<Rightarrow>
               (case blob_paths body of
                  Inl e \<Rightarrow> (Inr [], s1)
                | Inr files \<Rightarrow> (Inr files, s1))
           | (Inl (HTTPError code), s1) \<Rightarrow>
               if code = 404 then
                 (case get_default_branch srv s1 of
                    (Inl e, s2) \<Rightarrow> (Inl e, s2)
                  | (Inr dflt, s2) \<Rightarrow>
                      if ref \<noteq> dflt then get_file_list srv dflt s2
                      else
                        (case get_available_branches srv s2 of
                           (Inl e, s3) \<Rightarrow> (Inl e, s3)
                         | (Inr available_branches, s3) \<Rightarrow>
                             (case try_common_branches srv ref available_branches
                                     [''main'', ''master'', ''develop''] s3 of
                                (files, s4) \<Rightarrow> (Inr files, s4))))
               else (Inr [], s1)
           | (Inl e, s1) \<Rightarrow> (Inr [], s1)))"
  by pat_completeness auto
termination
proof (relation "measure (\<lambda>(srv, ref0, s). fallback_pending ref0 s)", goal_cases)
  case 1
  show ?case by simp
next
  case (2 srv ref0 s x y b xa ya a x1 xb yb ba)
  from 2 have first: "(if ref0 = JNull then get_default_branch srv s else (Inr ref0, s)) = (Inr b, y)"
    by simp
  from 2 have "simple_retry (make_request srv (GetTree b)) y = (xa, ya)" by simp
  then have keep: "cached_default ya = cached_default y" by (rule simple_retry_cached_default)
  from 2 have dflt: "get_default_branch srv ya = (Inr ba, yb)" by simp
  from fallback_decreases [OF first keep dflt] 2 show ?case by simp
qed


text \<open>\<^verbatim>\<open>branch_exists\<close>, \<^verbatim>\<open>delete_branch\<close>, \<^verbatim>\<open>get_branch_info\<close>: none of them raises.\<close>

definition branch_exists :: "'w server \<Rightarrow> string \<Rightarrow> 'w state \<Rightarrow> bool \<times> 'w state" where
  "branch_exists srv branch_name s =
     (case simple_retry (make_request srv (GetBranch branch_name)) s of
        (Inr body, s') \<Rightarrow> (True, s')
      | (Inl (HTTPError code), s') \<Rightarrow> if code = 404 then (False, s') else (False, s')
      | (Inl e, s') \<Rightarrow> (False, s'))"

definition delete_branch :: "'w server \<Rightarrow> string \<Rightarrow> 'w state \<Rightarrow> bool \<times> 'w state" where
  "delete_branch srv branch_name s =
     (case simple_retry (make_request srv (DeleteBranch branch_name)) s of
        (Inr body, s') \<Rightarrow> (True, s')
      | (Inl e, s') \<Rightarrow> (False, s'))"

definition get_branch_info :: "'w server \<Rightarrow> string \<Rightarrow> 'w state \<Rightarrow> json \<times> 'w state" where
  "get_branch_info srv branch_name s =
     (case simple_retry (make_request srv (GetBranch branch_name)) s of
        (Inr body, s') \<Rightarrow>
          (case response_json body of Inl e \<Rightarrow> (JNull, s') | Inr branch_info \<Rightarrow> (branch_info, s'))
      | (Inl e, s') \<Rightarrow> (JNull, s'))"

text \<open>
  \<^verbatim>\<open>create_branch\<close>, the part that deals with a branch that is already there. The
  lines read before the prompt (\<^verbatim>\<open>branch_info.get('commit', {})\<close>, the message cut to
  50 characters, the date) are not guarded and can raise. (Cutting a dict raises an
  exception whose class depends on the version of Python; it is \<^verbatim>\<open>TypeError\<close> here.)
\<close>

fun slice50 :: "json \<Rightarrow> exn + json" where
  "slice50 (JStr s) = Inr (JStr (take 50 s))"
| "slice50 (JArr xs) = Inr (JArr (take 50 xs))"
| "slice50 _ = Inl TypeError"

definition show_branch_info :: "json \<Rightarrow> exn + unit" where
  "show_branch_info branch_info =
     ebind (dict_get branch_info ''commit'' (JObj [])) (\<lambda>last_commit.
     ebind (dict_get last_commit ''message'' (JStr ''Unknown'')) (\<lambda>message.
     ebind (slice50 message) (\<lambda>commit_message.
     ebind (dict_get last_commit ''created_at'' (JStr ''Unknown'')) (\<lambda>commit_date.
     Inr ()))))"

text \<open>
  The \<^verbatim>\<open>while True\<close> loop that asks for 1 or 2. Its result is \<open>True\<close> when the old
  branch has been deleted and the creation goes on (\<^verbatim>\<open>break\<close>), \<open>False\<close> when the
  method returns \<^verbatim>\<open>False\<close>.
\<close>

function choice_loop :: "'w server \<Rightarrow> string \<Rightarrow> ('w, bool) act" where
  "choice_loop srv branch_name s =
     (case input s of
        (Inl e, s') \<Rightarrow> (Inl e, s')
      | (Inr line, s') \<Rightarrow>
          let choice = strip line in
          if choice = ''1'' \<or> choice = [] then
            (case delete_branch srv branch_name s' of
               (True, s'') \<Rightarrow> (Inr True, s'')
             | (False, s'') \<Rightarrow> (Inr False, s''))
          else if choice = ''2'' then (Inr False, s')
          else choice_loop srv branch_name s')"
  by pat_completeness auto
termination
  by (relation "measure (\<lambda>(srv, branch_name, s). length (stdin s))")
     (auto simp: input_def split: list.splits)

definition resolve_existing :: "'w server \<Rightarrow> string \<Rightarrow> ('w, bool) act" where
  "resolve_existing srv branch_name s =
     (case branch_exists srv branch_name s of
        (False, s1) \<Rightarrow> (Inr True, s1)
      | (True, s1) \<Rightarrow>
          (case get_branch_info srv branch_name s1 of (branch_info, s2) \<Rightarrow>
             if truthy branch_info then
               (case show_branch_info branch_info of
                  Inl e \<Rightarrow> (Inl e, s2)
                | Inr _ \<Rightarrow> choice_loop srv branch_name s2)
             else
               (case input s2 of
                  (Inl e, s3) \<Rightarrow> (Inl e, s3)
                | (Inr line, s3) \<Rightarrow>
                    let confirm = lower (strip line) in
                    if confirm = ''y'' \<or> confirm = ''yes'' then
                      (case delete_branch srv branch_name s3 of
                         (True, s4) \<Rightarrow> (Inr True, s4)
                       | (False, s4) \<Rightarrow> (Inr False, s4))
                    else (Inr False, s3))))"

lemma branch_exists_cached_default:
  "branch_exists srv b s = (r, s') \<Longrightarrow> cached_default s' = cached_default s"
  by (auto simp: branch_exists_def split: prod.splits sum.splits exn.splits if_splits
      dest: simple_retry_cached_default)

lemma delete_branch_cached_default:
  "delete_branch srv b s = (r, s') \<Longrightarrow> cached_default s' = cached_default s"
  by (auto simp: delete_branch_def split: prod.splits sum.splits
      dest: simple_retry_cached_default)

lemma get_branch_info_cached_default:
  "get_branch_info srv b s = (r, s') \<Longrightarrow> cached_default s' = cached_default s"
  by (auto simp: get_branch_info_def split: prod.splits sum.splits
      dest: simple_retry_cached_default)

lemma input_cached_default:
  "input s = (r, s') \<Longrightarrow> cached_default s' = cached_default s"
  by (auto simp: input_def cached_default_def split: list.splits)

lemma choice_loop_cached_default:
  "choice_loop srv b s = (r, s') \<Longrightarrow> cached_default s' = cached_default s"
proof (induction srv b s rule: choice_loop.induct)
  case (1 srv b s)
  obtain r1 s1 where i: "input s = (r1, s1)" by (metis surj_pair)
  note c1 = input_cached_default [OF i]
  show ?case
  proof (cases r1)
    case (Inl e)
    with "1.prems" i c1 show ?thesis by (subst (asm) choice_loop.simps) auto
  next
    case (Inr line)
    consider (del) "strip line = ''1'' \<or> strip line = []"
      | (stop) "\<not> (strip line = ''1'' \<or> strip line = [])" "strip line = ''2''"
      | (again) "\<not> (strip line = ''1'' \<or> strip line = [])" "strip line \<noteq> ''2''"
      by blast
    then show ?thesis
    proof cases
      case del
      obtain r2 s2 where d: "delete_branch srv b s1 = (r2, s2)" by (metis surj_pair)
      from "1.prems" i Inr del d have "s' = s2"
        by (subst (asm) choice_loop.simps) (auto simp: Let_def split: bool.splits)
      with delete_branch_cached_default [OF d] c1 show ?thesis by simp
    next
      case stop
      with "1.prems" i Inr have "s' = s1"
        by (subst (asm) choice_loop.simps) (auto simp: Let_def)
      with c1 show ?thesis by simp
    next
      case again
      with "1.prems" i Inr have "choice_loop srv b s1 = (r, s')"
        by (subst (asm) choice_loop.simps) (auto simp: Let_def)
      from "1.IH" [OF i [symmetric] Inr refl _ _ this] again c1 show ?thesis by auto
    qed
  qed
qed

lemma resolve_existing_cached_default:
  assumes "resolve_existing srv b s = (r, s')"
  shows "cached_default s' = cached_default s"
proof -
  obtain e1 s1 where be: "branch_exists srv b s = (e1, s1)" by (metis surj_pair)
  note c1 = branch_exists_cached_default [OF be]
  show ?thesis
  proof (cases e1)
    case False
    with assms be c1 show ?thesis by (simp add: resolve_existing_def)
  next
    case True
    obtain info s2 where gi: "get_branch_info srv b s1 = (info, s2)" by (metis surj_pair)
    note c2 = get_branch_info_cached_default [OF gi]
    show ?thesis
    proof (cases "truthy info")
      case t: True
      show ?thesis
      proof (cases "show_branch_info info")
        case (Inl e)
        with assms be True gi t c1 c2 show ?thesis by (simp add: resolve_existing_def)
      next
        case (Inr u)
        with assms be True gi t have "choice_loop srv b s2 = (r, s')"
          by (simp add: resolve_existing_def)
        from choice_loop_cached_default [OF this] c1 c2 show ?thesis by simp
      qed
    next
      case f: False
      obtain r3 s3 where i: "input s2 = (r3, s3)" by (metis surj_pair)
      note c3 = input_cached_default [OF i]
      show ?thesis
      proof (cases r3)
        case (Inl e)
        with assms be True gi f i c1 c2 c3 show ?thesis by (simp add: resolve_existing_def)
      next
        case (Inr line)
        obtain r4 s4 where d: "delete_branch srv b s3 = (r4, s4)" by (metis surj_pair)
        note c4 = delete_branch_cached_default [OF d]
        from assms be True gi f i Inr d have "s' = s3 \<or> s' = s4"
          by (auto simp: resolve_existing_def Let_def split: if_splits bool.splits)
        with c1 c2 c3 c4 show ?thesis by auto
      qed
    qed
  qed
qed

text \<open>
  \<^verbatim>\<open>create_branch\<close>. After the existence check the branch is created from \<^verbatim>\<open>ref\<close>;
  a 400 on a ref other than the default branch starts the method again with the default
  branch (the recursive call).
\<close>

function create_branch :: "'w server \<Rightarrow> string \<Rightarrow> json \<Rightarrow> ('w, bool) act" where
  "create_branch srv branch_name ref0 s =
     (case (if ref0 = JNull then get_default_branch srv s else (Inr ref0, s)) of
        (Inl e, s0) \<Rightarrow> (Inl e, s0)
      | (Inr ref, s0) \<Rightarrow>
          (case resolve_existing srv branch_name s0 of
             (Inl e, s1) \<Rightarrow> (Inl e, s1)
           | (Inr False, s1) \<Rightarrow> (Inr False, s1)
           | (Inr True, s1) \<Rightarrow>
               (case simple_retry (make_request srv (PostBranch branch_name ref)) s1 of
                  (Inr body, s2) \<Rightarrow> (Inr True, s2)
                | (Inl (HTTPError code), s2) \<Rightarrow>
                    if code = 400 then
                      (case get_default_branch srv s2 of
                         (Inl e, s3) \<Rightarrow> (Inl e, s3)
                       | (Inr dflt, s3) \<Rightarrow>
                           if ref \<noteq> dflt then create_branch srv branch_name dflt s3
                           else (Inr False, s3))
                    else (Inr False, s2)
                | (Inl e, s2) \<Rightarrow> (Inr False, s2))))"
  by pat_completeness auto
termination
proof (relation "measure (\<lambda>(srv, branch_name, ref0, s). fallback_pending ref0 s)", goal_cases)
  case 1
  show ?case by simp
next
  case (2 srv branch_name ref0 s x y b xa ya ba xb yb a x1 xc yc baa)
  from 2 have first: "(if ref0 = JNull then get_default_branch srv s else (Inr ref0, s)) = (Inr b, y)"
    by simp
  from 2 have "resolve_existing srv branch_name y = (xa, ya)" by simp
  then have k1: "cached_default ya = cached_default y" by (rule resolve_existing_cached_default)
  from 2 have "simple_retry (make_request srv (PostBranch branch_name b)) ya = (xb, yb)" by simp
  then have "cached_default yb = cached_default ya" by (rule simple_retry_cached_default)
  with k1 have keep: "cached_default yb = cached_default y" by simp
  from 2 have dflt: "get_default_branch srv yb = (Inr baa, yc)" by simp
  from fallback_decreases [OF first keep dflt] 2 show ?case by simp
qed


text \<open>\<^verbatim>\<open>commit_files\<close>: the commit document, \<^verbatim>\<open>None\<close> on any error.\<close>

definition commit_files ::
  "'w server \<Rightarrow> string \<Rightarrow> string \<Rightarrow> file_action list \<Rightarrow> 'w state \<Rightarrow> json \<times> 'w state" where
  "commit_files srv branch_name commit_message actions s =
     (case simple_retry (make_request srv (PostCommit branch_name commit_message actions)) s of
        (Inl e, s') \<Rightarrow> (JNull, s')
      | (Inr body, s') \<Rightarrow>
          (case ebind (response_json body) (\<lambda>commit_data.
                ebind (dict_get commit_data ''id'' (JStr ''unknown'')) (\<lambda>sha. Inr commit_data)) of
             Inl e \<Rightarrow> (JNull, s')
           | Inr commit_data \<Rightarrow> (commit_data, s')))"

text \<open>\<^verbatim>\<open>_find_existing_mr\<close>: the first open merge request of the source branch, or \<^verbatim>\<open>None\<close>.\<close>

definition find_existing_mr :: "'w server \<Rightarrow> string \<Rightarrow> 'w state \<Rightarrow> json \<times> 'w state" where
  "find_existing_mr srv source_branch s =
     (case simple_retry (make_request srv (ListMergeRequests source_branch)) s of
        (Inl e, s') \<Rightarrow> (JNull, s')
      | (Inr body, s') \<Rightarrow>
          (case ebind (response_json body) (\<lambda>mrs.
                if truthy mrs then
                  ebind (first_item mrs) (\<lambda>mr.
                  ebind (dict_get mr ''iid'' JNull) (\<lambda>iid. Inr mr))
                else Inr JNull) of
             Inl e \<Rightarrow> (JNull, s')
           | Inr mr \<Rightarrow> (mr, s')))"

text \<open>
  The choice of the target branch in \<^verbatim>\<open>create_merge_request\<close> when none is given: the
  first of \<^verbatim>\<open>develop\<close>, \<^verbatim>\<open>dev\<close> and the default branch that is among the available
  branches, else the default branch.
\<close>

definition first_preferred :: "json list \<Rightarrow> json list \<Rightarrow> json option" where
  "first_preferred preferred_targets available_branches =
     (case filter (\<lambda>preferred. preferred \<in> set available_branches) preferred_targets of
        [] \<Rightarrow> None
      | target # _ \<Rightarrow> Some target)"

definition select_target :: "'w server \<Rightarrow> ('w, json) act" where
  "select_target srv s =
     (case get_available_branches srv s of
        (Inl e, s1) \<Rightarrow> (Inl e, s1)
      | (Inr available_branches, s1) \<Rightarrow>
          (case get_default_branch srv s1 of
             (Inl e, s2) \<Rightarrow> (Inl e, s2)
           | (Inr dflt, s2) \<Rightarrow>
               (case first_preferred [JStr ''develop'', JStr ''dev'', dflt] available_branches of
                  None \<Rightarrow> (Inr dflt, s2)
                | Some target \<Rightarrow> (Inr target, s2))))"

text \<open>
  \<^verbatim>\<open>create_merge_request\<close>. An \<^verbatim>\<open>HTTPError\<close> is raised again, unless it is a 409 and an
  open merge request of the source branch is found, which is then the result; any other
  exception gives \<^verbatim>\<open>None\<close>.
\<close>

definition create_merge_request ::
  "'w server \<Rightarrow> string \<Rightarrow> string \<Rightarrow> json \<Rightarrow> string option \<Rightarrow> ('w, json) act" where
  "create_merge_request srv title source_branch target_branch0 description s =
     (case (if target_branch0 = JNull then select_target srv s else (Inr target_branch0, s)) of
        (Inl e, s1) \<Rightarrow> (Inl e, s1)
      | (Inr target_branch, s1) \<Rightarrow>
          (case simple_retry (make_request srv
                  (PostMergeRequest source_branch target_branch title
                     (case description of
                        None \<Rightarrow> None
                      | Some d \<Rightarrow> if d \<noteq> [] then Some d else None))) s1 of
             (Inr body, s2) \<Rightarrow>
               (case ebind (response_json body) (\<lambda>mr_data.
                     ebind (dict_get mr_data ''web_url'' (JStr ''unknown'')) (\<lambda>mr_url.
                     Inr mr_data)) of
                  Inl e \<Rightarrow> (Inr JNull, s2)
                | Inr mr_data \<Rightarrow> (Inr mr_data, s2))
           | (Inl (HTTPError code), s2) \<Rightarrow>
               if code = 409 then
                 (case find_existing_mr srv source_branch s2 of (existing_mr, s3) \<Rightarrow>
                    if truthy existing_mr then
                      (case dict_get existing_mr ''web_url'' JNull of
                         Inl e \<Rightarrow> (Inl e, s3)
                       | Inr url \<Rightarrow> (Inr existing_mr, s3))
                    else (Inl (HTTPError code), s3))
               else (Inl (HTTPError code), s2)
           | (Inl e, s2) \<Rightarrow> (Inr JNull, s2)))"

text \<open>\<^verbatim>\<open>get_pipeline_by_id\<close> and \<^verbatim>\<open>get_pipeline_jobs\<close>.\<close>

definition get_pipeline_by_id :: "'w server \<Rightarrow> int \<Rightarrow> 'w state \<Rightarrow> json \<times> 'w state" where
  "get_pipeline_by_id srv pipeline_id s =
     (case simple_retry (make_request srv (GetPipeline pipeline_id)) s of
        (Inl e, s') \<Rightarrow> (JNull, s')
      | (Inr body, s') \<Rightarrow>
          (case response_json body of
             Inl e \<Rightarrow> (JNull, s')
           | Inr pipeline_data \<Rightarrow> (pipeline_data, s')))"

definition get_pipeline_jobs :: "'w server \<Rightarrow> int \<Rightarrow> 'w state \<Rightarrow> json \<times> 'w state" where
  "get_pipeline_jobs srv pipeline_id s =
     (case simple_retry (make_request srv (GetPipelineJobs pipeline_id)) s of
        (Inl e, s') \<Rightarrow> (JArr [], s')
      | (Inr body, s') \<Rightarrow>
          (case ebind (response_json body) (\<lambda>jobs.
                ebind (py_len jobs) (\<lambda>n. Inr jobs)) of
             Inl e \<Rightarrow> (JArr [], s')
           | Inr jobs \<Rightarrow> (jobs, s')))"


section \<open>PipelineMonitor\<close>

text \<open>
  The dictionary returned by \<^verbatim>\<open>monitor_pipeline\<close>; a key that a return statement does
  not set is \<open>None\<close>. Times are clock ticks.
\<close>

record monitor_result =
  status :: json
  error :: "string option"
  pipeline_id :: "int option"
  duration :: "int option"
  checks :: "nat option"
  failure_analysis :: "json option"

text \<open>
  \<^verbatim>\<open>_analyze_failure\<close>: the failed jobs of the pipeline and the number of jobs; every
  exception ends in an \<^verbatim>\<open>error\<close> entry (its text is not modelled).
\<close>

fun failed_jobs_of :: "json list \<Rightarrow> exn + json list" where
  "failed_jobs_of [] = Inr []"
| "failed_jobs_of (job # rest) =
     ebind (dict_get job ''status'' JNull) (\<lambda>st.
       if st = JStr ''failed'' then
         ebind (dict_get job ''name'' JNull) (\<lambda>name.
         ebind (dict_get job ''id'' JNull) (\<lambda>jid.
         ebind (dict_get job ''stage'' JNull) (\<lambda>stage.
         ebind (failed_jobs_of rest) (\<lambda>more.
         Inr (JObj [(''name'', name), (''id'', jid), (''stage'', stage)] # more)))))
       else failed_jobs_of rest)"

definition analyze_failure :: "'w server \<Rightarrow> int \<Rightarrow> 'w state \<Rightarrow> json \<times> 'w state" where
  "analyze_failure srv pid s =
     (case get_pipeline_jobs srv pid s of (jobs, s') \<Rightarrow>
        if \<not> truthy jobs then
          (JObj [(''error'', JStr ''Could not retrieve pipeline jobs'')], s')
        else
          (case ebind (py_iter jobs) (\<lambda>items.
                ebind (failed_jobs_of items) (\<lambda>failed_jobs.
                ebind (py_len jobs) (\<lambda>total.
                Inr (JObj [(''failed_jobs'', JArr failed_jobs),
                           (''total_jobs'', JNum (int total))])))) of
             Inl e \<Rightarrow> (JObj [(''error'', JStr ''exception'')], s')
           | Inr analysis \<Rightarrow> (analysis, s')))"

text \<open>
  \<^verbatim>\<open>monitor_pipeline\<close>. The loop runs while the clock is less than \<^verbatim>\<open>max_wait_time\<close>
  past the start; nothing in the source bounds the number of rounds, so the loop is a
  partial function and \<open>None\<close> stands for a run that never returns.
\<close>

partial_function (option) monitor_loop ::
  "'w server \<Rightarrow> int \<Rightarrow> int \<Rightarrow> int \<Rightarrow> int \<Rightarrow> nat \<Rightarrow> 'w state
     \<Rightarrow> ((exn + monitor_result) \<times> 'w state) option" where
  "monitor_loop srv check_interval pid max_wait_time start_time n s =
     (if now s - start_time < max_wait_time then
        (case get_pipeline_by_id srv pid s of (pipeline_info, s1) \<Rightarrow>
           if \<not> truthy pipeline_info then
             Some (Inr \<lparr>status = JStr ''error'',
                        error = Some ''Could not retrieve pipeline info'',
                        pipeline_id = None, duration = None, checks = None,
                        failure_analysis = None\<rparr>, s1)
           else
             (case dict_get pipeline_info ''status'' (JStr ''unknown'') of
                Inl e \<Rightarrow> Some (Inl e, s1)
              | Inr current_status \<Rightarrow>
                  if current_status \<in> set [JStr ''success'', JStr ''failed'',
                                           JStr ''canceled'', JStr ''skipped''] then
                    (if current_status = JStr ''failed'' then
                       (case analyze_failure srv pid s1 of (analysis, s2) \<Rightarrow>
                          Some (Inr \<lparr>status = current_status, error = None,
                                     pipeline_id = Some pid,
                                     duration = Some (now s1 - start_time),
                                     checks = Some (n + 1),
                                     failure_analysis = Some analysis\<rparr>, s2))
                     else
                       Some (Inr \<lparr>status = current_status, error = None,
                                  pipeline_id = Some pid,
                                  duration = Some (now s1 - start_time),
                                  checks = Some (n + 1),
                                  failure_analysis = None\<rparr>, s1))
                  else
                    (case sleep check_interval s1 of
                       (Inl e, s2) \<Rightarrow> Some (Inl e, s2)
                     | (Inr u, s2) \<Rightarrow>
                         monitor_loop srv check_interval pid max_wait_time start_time
                           (n + 1) s2)))
      else
        Some (Inr \<lparr>status = JStr ''timeout'', error = None, pipeline_id = Some pid,
                   duration = Some max_wait_time, checks = Some n,
                   failure_analysis = None\<rparr>, s))"

definition monitor_pipeline ::
  "'w server \<Rightarrow> int \<Rightarrow> int \<Rightarrow> int \<Rightarrow> 'w state \<Rightarrow> ((exn + monitor_result) \<times> 'w state) option" where
  "monitor_pipeline srv check_interval pid max_wait_time s =
     monitor_loop srv check_interval pid max_wait_time (now s) 0 s"


section \<open>PipelineGenerator\<close>

text \<open>
  The project descriptor built by the analyzer (the keys of \<^verbatim>\<open>project_data\<close>, with the
  prefix \<open>pd_\<close>), the parts of the configuration the generator reads, and what it takes from
  its surroundings: the date, the year and the template files (a path that is not there
  maps to \<open>None\<close>).
\<close>

record project_data =
  pd_name :: string
  pd_language :: string
  pd_type :: string
  pd_has_pipeline :: bool
  pd_files :: "json list"
  pd_default_branch :: json
  pd_available_branches :: "json list"
  pd_analysis_branch :: json

record pipeline_config =
  template_path :: string
  required_env :: "string list"
  files_to_create :: "string list"

record config =
  pipelines :: "(string \<times> pipeline_config) list"
  default_branches :: "(string \<times> string) list"

record env =
  today :: string
  year :: string
  templates :: "string \<Rightarrow> string option"

text \<open>\<^verbatim>\<open>str.replace(old, new)\<close>: every occurrence, from the left, without overlap.\<close>

function replace :: "string \<Rightarrow> string \<Rightarrow> string \<Rightarrow> string" where
  "replace old new s =
     (if old = [] then new @ concat (map (\<lambda>c. c # new) s)
      else if s = [] then []
      else if take (length old) s = old then new @ replace old new (drop (length old) s)
      else hd s # replace old new (tl s))"
  by pat_completeness auto
termination
  by (relation "measure (\<lambda>(old, new, s). length s)") (auto simp: neq_Nil_conv)

text \<open>
  \<^verbatim>\<open>_render_template\<close>: each key of the context in turn; replacing a placeholder that does
  not occur leaves the text as it is, which is what the guard of the source does.
\<close>

fun render_template :: "string \<Rightarrow> (string \<times> string) list \<Rightarrow> string" where
  "render_template rendered_str [] = rendered_str"
| "render_template rendered_str ((key, v) # context) =
     render_template (replace (''{{'' @ key @ ''}}'') v rendered_str) context"

text \<open>\<^verbatim>\<open>_load_template_file\<close>.\<close>

definition load_template_file :: "env \<Rightarrow> string \<Rightarrow> exn + string" where
  "load_template_file ev path =
     (case templates ev path of None \<Rightarrow> Inl FileNotFoundError | Some text \<Rightarrow> Inr text)"

text \<open>
  \<^verbatim>\<open>_prepare_context\<close>; the two parts of a compound pipeline type are the texts before
  the first and before the second underscore.
\<close>

definition prepare_context :: "env \<Rightarrow> project_data \<Rightarrow> (string \<times> string) list" where
  "prepare_context ev pd =
     [(''creation_date'', today ev), (''creation_year'', year ev),
      (''project_name'', pd_name pd), (''language'', pd_language pd),
      (''pipeline_type'', pd_type pd)]
     @ (if CHR ''_'' \<in> set (pd_type pd) then
          [(''original_language'', takeWhile (\<lambda>c. c \<noteq> CHR ''_'') (pd_type pd)),
           (''original_type'',
              takeWhile (\<lambda>c. c \<noteq> CHR ''_'')
                (tl (dropWhile (\<lambda>c. c \<noteq> CHR ''_'') (pd_type pd))))]
        else [])"

text \<open>\<^verbatim>\<open>_check_file_exists_in_branch\<close>: one listing of the branch for each question.\<close>

definition check_file_exists_in_branch ::
  "'w server \<Rightarrow> json \<Rightarrow> string \<Rightarrow> 'w state \<Rightarrow> bool \<times> 'w state" where
  "check_file_exists_in_branch srv branch_name path s =
     (case get_file_list srv branch_name s of
        (Inl e, s') \<Rightarrow> (False, s')
      | (Inr files_in_branch, s') \<Rightarrow> (JStr path \<in> set files_in_branch, s'))"

text \<open>
  \<^verbatim>\<open>_create_pipeline_files\<close>: the loop over \<^verbatim>\<open>files_to_create\<close>, then the method. The
  template path and the file name are joined with a slash.
\<close>

fun pipeline_file_actions ::
  "'w server \<Rightarrow> env \<Rightarrow> (string \<times> string) list \<Rightarrow> string \<Rightarrow> json \<Rightarrow> string list
     \<Rightarrow> ('w, file_action list) act" where
  "pipeline_file_actions srv ev context tpath source_branch [] s = (Inr [], s)"
| "pipeline_file_actions srv ev context tpath source_branch (file_name # rest) s =
     (case load_template_file ev (tpath @ ''/'' @ file_name) of
        Inl e \<Rightarrow> (Inl e, s)
      | Inr template_content \<Rightarrow>
          (case check_file_exists_in_branch srv source_branch file_name s of
             (file_exists, s1) \<Rightarrow>
               (case pipeline_file_actions srv ev context tpath source_branch rest s1 of
                  (Inl e, s2) \<Rightarrow> (Inl e, s2)
                | (Inr actions, s2) \<Rightarrow>
                    (Inr (\<lparr>action = (if file_exists then ''update'' else ''create''),
                            file_path = file_name,
                            content = render_template template_content context\<rparr>
                          # actions), s2))))"

definition create_pipeline_files ::
  "'w server \<Rightarrow> env \<Rightarrow> project_data \<Rightarrow> config \<Rightarrow> json \<Rightarrow> ('w, file_action list) act" where
  "create_pipeline_files srv ev pd cfg source_branch s =
     (case map_of (pipelines cfg) (pd_type pd) of
        None \<Rightarrow> (Inl ValueError, s)
      | Some pc \<Rightarrow>
          pipeline_file_actions srv ev (prepare_context ev pd) (template_path pc)
            source_branch (files_to_create pc) s)"

text \<open>\<^verbatim>\<open>_get_branch_names\<close> (only the feature branch is used).\<close>

definition get_branch_names :: "config \<Rightarrow> string" where
  "get_branch_names cfg =
     (case map_of (default_branches cfg) ''feature_prefix'' of
        None \<Rightarrow> ''feature/pipeops''
      | Some f \<Rightarrow> f)"

text \<open>\<^verbatim>\<open>_get_best_target_branch\<close> and \<^verbatim>\<open>_get_best_source_branch\<close>.\<close>

definition get_best_target_branch :: "project_data \<Rightarrow> json" where
  "get_best_target_branch pd =
     (if pd_analysis_branch pd \<in> set [JStr ''develop'', JStr ''dev''] then pd_analysis_branch pd
      else
        (case first_preferred [JStr ''develop'', JStr ''dev'', pd_default_branch pd]
                (pd_available_branches pd) of
           None \<Rightarrow> pd_default_branch pd
         | Some target \<Rightarrow> target))"

definition get_best_source_branch :: "project_data \<Rightarrow> json" where
  "get_best_source_branch pd =
     (if truthy (pd_analysis_branch pd) \<and> pd_analysis_branch pd \<in> set (pd_available_branches pd)
      then pd_analysis_branch pd
      else if pd_default_branch pd \<in> set (pd_available_branches pd) then pd_default_branch pd
      else (case pd_available_branches pd of [] \<Rightarrow> JStr ''main'' | b # _ \<Rightarrow> b))"

text \<open>
  The text of a branch name inside a message; only strings and \<^verbatim>\<open>None\<close> are spelled
  out, the text of any other value is left open.
\<close>

fun py_str :: "json \<Rightarrow> string" where
  "py_str (JStr s) = s"
| "py_str JNull = ''None''"
| "py_str _ = ''?''"

text \<open>
  \<^verbatim>\<open>_create_mr_description\<close>: the heading with the project data, one line for each file
  action, one line for each required variable (the pictograms and the closing steps of the
  source text are left out).
\<close>

definition create_mr_description ::
  "project_data \<Rightarrow> pipeline_config \<Rightarrow> file_action list \<Rightarrow> json \<Rightarrow> env \<Rightarrow> string" where
  "create_mr_description pd pc actions source_branch ev =
     ''## PipeOps: Automated Pipeline Setup'' @ [CHR 0x0A]
     @ ''- **Project**: `'' @ pd_name pd @ ''`'' @ [CHR 0x0A]
     @ ''- **Pipeline Type**: `'' @ pd_type pd @ ''`'' @ [CHR 0x0A]
     @ ''- **Source Branch**: `'' @ py_str source_branch @ ''`'' @ [CHR 0x0A]
     @ ''- **Generated**: '' @ today ev @ [CHR 0x0A]
     @ ''### Files Modified'' @ [CHR 0x0A]
     @ concat (map (\<lambda>a. ''- `'' @ file_path a @ ''` ('' @ action a @ ''d)'' @ [CHR 0x0A]) actions)
     @ ''### Required Environment Variables'' @ [CHR 0x0A]
     @ concat (map (\<lambda>v. ''- `'' @ v @ ''`'' @ [CHR 0x0A]) (required_env pc))"

text \<open>The dictionary returned by \<^verbatim>\<open>generate_and_commit\<close> (\<open>success\<close> is always true).\<close>

record outcome =
  success :: bool
  branch_name :: string
  source_branch :: json
  target_branch :: json
  commit :: json
  merge_request :: json
  files_created :: nat
  pipeline_type :: string
  pipeline_triggered :: bool

text \<open>
  \<^verbatim>\<open>generate_and_commit\<close>. The whole body stands in one \<^verbatim>\<open>try\<close>: whatever a step
  raises gives \<^verbatim>\<open>None\<close>, as do a refused branch, an empty action list and a failed
  commit. The result of \<^verbatim>\<open>create_merge_request\<close> is stored as it comes.
\<close>

definition generate_and_commit ::
  "'w server \<Rightarrow> env \<Rightarrow> project_data \<Rightarrow> config \<Rightarrow> 'w state \<Rightarrow> outcome option \<times> 'w state" where
  "generate_and_commit srv ev pd cfg s =
     (let new_branch = get_branch_names cfg;
          src = get_best_source_branch pd;
          tgt = get_best_target_branch pd
      in case create_branch srv new_branch src s of
           (Inl e, s1) \<Rightarrow> (None, s1)
         | (Inr False, s1) \<Rightarrow> (None, s1)
         | (Inr True, s1) \<Rightarrow>
             (case create_pipeline_files srv ev pd cfg src s1 of
                (Inl e, s2) \<Rightarrow> (None, s2)
              | (Inr actions, s2) \<Rightarrow>
                  if actions = [] then (None, s2)
                  else
                    let action_word = (if pd_has_pipeline pd then ''Update'' else ''Add'');
                        commit_message =
                          action_word @ '' pipeline configuration for '' @ pd_type pd
                          @ [CHR 0x0A, CHR 0x0A] @ ''Generated by PipeOps CLI'' @ [CHR 0x0A]
                          @ ''Based on: '' @ py_str src
                    in case commit_files srv new_branch commit_message actions s2 of
                         (commit_result, s3) \<Rightarrow>
                           if \<not> truthy commit_result then (None, s3)
                           else
                             (case map_of (pipelines cfg) (pd_type pd) of
                                None \<Rightarrow> (None, s3)
                              | Some pc \<Rightarrow>
                                  (case create_merge_request srv
                                          (''PipeOps: '' @ action_word @ '' pipeline for ''
                                             @ pd_type pd)
                                          new_branch tgt
                                          (Some (create_mr_description pd pc actions src ev))
                                          s3 of
                                     (Inl e, s4) \<Rightarrow> (None, s4)
                                   | (Inr mr_result, s4) \<Rightarrow>
                                       (Some \<lparr>success = True, branch_name = new_branch,
                                               source_branch = src, target_branch = tgt,
                                               commit = commit_result,
                                               merge_request = mr_result,
                                               files_created = length actions,
                                               pipeline_type = pd_type pd,
                                               pipeline_triggered = False\<rparr>, s4)))))"


section \<open>ProjectAnalyzer: language detection\<close>

definition python_indicators :: "string list" where
  "python_indicators =
     [''app.py'', ''main.py'', ''server.py'', ''manage.py'', ''wsgi.py'', ''asgi.py'',
      ''requirements.txt'', ''setup.py'', ''pyproject.toml'', ''__init__.py'']"

definition nodejs_indicators :: "string list" where
  "nodejs_indicators =
     [''package.json'', ''server.js'', ''app.js'', ''index.js'',
      ''yarn.lock'', ''package-lock.json'']"

text \<open>
  The loop \<^verbatim>\<open>for indicator in indicators: if indicator in files_lower: count += 1\<close>
  adds one for each indicator that occurs in the lowered listing.
\<close>

definition indicator_hits :: "string list \<Rightarrow> string list \<Rightarrow> nat" where
  "indicator_hits indicators files_lower =
     length (filter (\<lambda>indicator. indicator \<in> set files_lower) indicators)"

text \<open>
  The value of \<^verbatim>\<open>python_count\<close> when the decision is taken: the indicator hits, plus the
  number of listing entries ending in \<^verbatim>\<open>.py\<close> when there is at least one.
\<close>

definition python_count :: "string list \<Rightarrow> nat" where
  "python_count files_lower =
     (let c = indicator_hits python_indicators files_lower;
          py_files = filter (\<lambda>f. endswith f ''.py'') files_lower
      in if py_files \<noteq> [] then c + length py_files else c)"

definition nodejs_count :: "string list \<Rightarrow> nat" where
  "nodejs_count files_lower =
     (let c = indicator_hits nodejs_indicators files_lower;
          js_files = filter (\<lambda>f. endswith f ''.js'') files_lower
      in if js_files \<noteq> [] then c + length js_files else c)"

text \<open>\<^verbatim>\<open>ProjectAnalyzer._detect_language\<close>.\<close>

definition detect_language :: "string list \<Rightarrow> string" where
  "detect_language files =
     (let files_lower = map lower files;
          pc = python_count files_lower;
          nc = nodejs_count files_lower
      in if pc > nc then ''python''
         else if nc > pc then ''javascript''
         else if pc > 0 then ''python''
         else ''unknown'')"


section \<open>Auxiliary definitions for the properties\<close>

text \<open>
  Linear backoff as the specification words it: the log of a call that is tried once for
  each reply of the list, with a sleep of twice the (one-based) attempt number between two
  consecutive attempts and none after the last.
\<close>

fun backoff_trace :: "nat \<Rightarrow> request \<Rightarrow> reply list \<Rightarrow> event list" where
  "backoff_trace i req [] = []"
| "backoff_trace i req [rep] = [Sent req rep]"
| "backoff_trace i req (rep # rep' # reps) =
     Sent req rep # Slept (2 * (int i + 1)) # backoff_trace (Suc i) req (rep' # reps)"

text \<open>
  Two hosts for concrete runs. The first answers from a script, one reply for each call in
  turn, and does not answer once the script is used up; the second answers each request
  from a fixed table. Every call takes one tick.
\<close>

fun script_server :: "reply list server" where
  "script_server req [] = ((NoReply, 1), [])"
| "script_server req (rep # reps) = ((rep, 1), reps)"

definition table_server :: "(request \<Rightarrow> reply) \<Rightarrow> unit server" where
  "table_server table req w = ((table req, 1), w)"

text \<open>A freshly built client with the default three attempts and no input.\<close>

definition init_state :: "'w \<Rightarrow> 'w state" where
  "init_state w =
     \<lparr>max_retries = 3, project_info = JNull, default_branch = JNull, now = 0,
      trace = [], stdin = [], remote = w\<rparr>"

text \<open>
  A host with an open merge request for every source branch: creating another one is
  refused with 409, the list of open merge requests holds the one that is there.
\<close>

definition existing_mr :: json where
  "existing_mr =
     JObj [(''iid'', JNum 5), (''web_url'', JStr ''https://host/group/app/-/merge_requests/5'')]"

fun conflict_table :: "request \<Rightarrow> reply" where
  "conflict_table (PostMergeRequest source target title description) = Reply 409 None"
| "conflict_table (ListMergeRequests source) = Reply 200 (Some (JArr [existing_mr]))"
| "conflict_table _ = NoReply"

text \<open>
  A host whose default branch is \<open>main\<close>, with one file and one directory on it, and no
  other branch.
\<close>

fun main_only_table :: "request \<Rightarrow> reply" where
  "main_only_table GetProject = Reply 200 (Some (JObj [(''default_branch'', JStr ''main'')]))"
| "main_only_table ListBranches = Reply 200 (Some (JArr [JObj [(''name'', JStr ''main'')]]))"
| "main_only_table (GetTree ref) =
     (if ref = JStr ''main'' then
        Reply 200 (Some (JArr [JObj [(''type'', JStr ''blob''), (''path'', JStr ''app.py'')],
                               JObj [(''type'', JStr ''tree''), (''path'', JStr ''src'')]]))
      else Reply 404 None)"
| "main_only_table _ = NoReply"

text \<open>
  The file actions as the specification words them, for a given listing of the source
  branch: \<open>update\<close> for a path that is in the listing, \<open>create\<close> for one that is not; a
  template that is missing stops the whole list.
\<close>

definition action_for :: "json list \<Rightarrow> string \<Rightarrow> string" where
  "action_for listing path = (if JStr path \<in> set listing then ''update'' else ''create'')"

fun planned_actions ::
  "env \<Rightarrow> (string \<times> string) list \<Rightarrow> string \<Rightarrow> json list \<Rightarrow> string list
     \<Rightarrow> exn + file_action list" where
  "planned_actions ev context tpath listing [] = Inr []"
| "planned_actions ev context tpath listing (file_name # rest) =
     (case load_template_file ev (tpath @ ''/'' @ file_name) of
        Inl e \<Rightarrow> Inl e
      | Inr template_content \<Rightarrow>
          (case planned_actions ev context tpath listing rest of
             Inl e \<Rightarrow> Inl e
           | Inr actions \<Rightarrow>
               Inr (\<lparr>action = action_for listing file_name, file_path = file_name,
                      content = render_template template_content context\<rparr> # actions)))"

text \<open>A configuration with one pipeline type of two files, and the two templates.\<close>

definition demo_config :: config where
  "demo_config =
     \<lparr>pipelines =
        [(''python_service'',
          \<lparr>template_path = ''templates/python_service'', required_env = [''OC_TOKEN''],
           files_to_create = [''app.py'', ''.gitlab-ci.yml'']\<rparr>)],
      default_branches = []\<rparr>"

definition demo_env :: env where
  "demo_env =
     \<lparr>today = ''2025-01-01'', year = ''2025'',
      templates = map_of
        [(''templates/python_service/app.py'', ''# {{project_name}}''),
         (''templates/python_service/.gitlab-ci.yml'', ''image: {{language}}'')]\<rparr>"

definition demo_project :: project_data where
  "demo_project =
     \<lparr>pd_name = ''app'', pd_language = ''python'', pd_type = ''python_service'',
      pd_has_pipeline = False, pd_files = [JStr ''app.py''], pd_default_branch = JStr ''main'',
      pd_available_branches = [JStr ''main''], pd_analysis_branch = JStr ''main''\<rparr>"

text \<open>
  A host on which the feature branch does not exist yet and everything works but the
  creation of merge requests, which gets no answer.
\<close>

fun mr_down_table :: "request \<Rightarrow> reply" where
  "mr_down_table GetProject = Reply 200 (Some (JObj [(''default_branch'', JStr ''main'')]))"
| "mr_down_table ListBranches = Reply 200 (Some (JArr [JObj [(''name'', JStr ''main'')]]))"
| "mr_down_table (GetTree ref) =
     (if ref = JStr ''main'' then
        Reply 200 (Some (JArr [JObj [(''type'', JStr ''blob''), (''path'', JStr ''app.py'')]]))
      else Reply 404 None)"
| "mr_down_table (GetBranch b) = Reply 404 None"
| "mr_down_table (PostBranch b ref) = Reply 201 (Some (JObj [(''name'', JStr b)]))"
| "mr_down_table (PostCommit b message actions) = Reply 201 (Some (JObj [(''id'', JStr ''c0ffee'')]))"
| "mr_down_table (PostMergeRequest source target title description) = NoReply"
| "mr_down_table _ = NoReply"

text \<open>The replies to the merge-request creation calls in a log, and the deletions sent.\<close>

fun merge_request_replies :: "event list \<Rightarrow> reply list" where
  "merge_request_replies [] = []"
| "merge_request_replies (Sent (PostMergeRequest source target title description) rep # evs) =
     rep # merge_request_replies evs"
| "merge_request_replies (ev # evs) = merge_request_replies evs"

fun deletions :: "event list \<Rightarrow> string list" where
  "deletions [] = []"
| "deletions (Sent (DeleteBranch b) rep # evs) = b # deletions evs"
| "deletions (ev # evs) = deletions evs"


section \<open>A host with a branch table\<close>

text \<open>
  The claim about the remote state after \<^verbatim>\<open>create_branch\<close> needs a host that has one.
  This one keeps, for each branch name, the commit the branch points at, the name of the
  default branch and the names of the branches that may not be deleted. It answers as the
  GitLab API does: a branch is looked up with 200 or 404; a deletion removes the branch
  (204), or is refused for a branch that is not there (404) or is protected (403); a
  creation adds the branch at the commit of the ref it is created from (201), or is refused
  when the name is taken or the ref does not name a branch (400).
\<close>

record gitlab =
  heads :: "(string \<times> nat) list"
  default_name :: string
  locked :: "string list"

definition branch_document :: "string \<Rightarrow> nat \<Rightarrow> json" where
  "branch_document b c =
     JObj [(''name'', JStr b),
           (''commit'', JObj [(''id'', JNum (int c)), (''message'', JStr ''work in progress''),
                              (''created_at'', JStr ''2025-01-01T00:00:00Z'')])]"

fun gitlab_server :: "gitlab server" where
  "gitlab_server GetProject g =
     ((Reply 200 (Some (JObj [(''default_branch'', JStr (default_name g))])), 1), g)"
| "gitlab_server ListBranches g =
     ((Reply 200 (Some (JArr (map (\<lambda>(n, c). JObj [(''name'', JStr n)]) (heads g)))), 1), g)"
| "gitlab_server (GetBranch b) g =
     (case map_of (heads g) b of
        None \<Rightarrow> ((Reply 404 None, 1), g)
      | Some c \<Rightarrow> ((Reply 200 (Some (branch_document b c)), 1), g))"
| "gitlab_server (DeleteBranch b) g =
     (case map_of (heads g) b of
        None \<Rightarrow> ((Reply 404 None, 1), g)
      | Some c \<Rightarrow>
          if b \<in> set (locked g) then ((Reply 403 None, 1), g)
          else ((Reply 204 None, 1), g\<lparr>heads := filter (\<lambda>(n, c). n \<noteq> b) (heads g)\<rparr>))"
| "gitlab_server (PostBranch b ref) g =
     (case map_of (heads g) b of
        Some c \<Rightarrow> ((Reply 400 None, 1), g)
      | None \<Rightarrow>
          (case ref of
             JStr r \<Rightarrow>
               (case map_of (heads g) r of
                  None \<Rightarrow> ((Reply 400 None, 1), g)
                | Some c \<Rightarrow>
                    ((Reply 201 (Some (branch_document b c)), 1),
                     g\<lparr>heads := (b, c) # heads g\<rparr>))
           | _ \<Rightarrow> ((Reply 400 None, 1), g)))"
| "gitlab_server _ g = ((Reply 404 None, 1), g)"

text \<open>
  A project with the branches \<open>main\<close> and \<open>feature/pipeops\<close>, nothing protected, and a
  user who answers 1 (delete and recreate).
\<close>

definition two_branches :: gitlab where
  "two_branches =
     \<lparr>heads = [(''main'', 1), (''feature/pipeops'', 9)], default_name = ''main'', locked = []\<rparr>"

definition answering :: "string list \<Rightarrow> 'w state \<Rightarrow> 'w state" where
  "answering lines s = s\<lparr>stdin := lines\<rparr>"

text \<open>
  Two states agree on the client's side when the attributes, the memo fields and the
  pending input are the same.
\<close>

definition same_client :: "'w state \<Rightarrow> 'w state \<Rightarrow> bool" where
  "same_client s s' \<longleftrightarrow>
     max_retries s' = max_retries s \<and> project_info s' = project_info s
     \<and> default_branch s' = default_branch s \<and> stdin s' = stdin s"

text \<open>
  Reading a log: the refs of the creation calls sent for a branch, and whether a deletion
  of the branch was sent and answered without error.
\<close>

fun creations :: "string \<Rightarrow> event list \<Rightarrow> json list" where
  "creations b [] = []"
| "creations b (Sent (PostBranch b' ref) rep # evs) =
     (if b' = b then ref # creations b evs else creations b evs)"
| "creations b (ev # evs) = creations b evs"

fun deleted :: "string \<Rightarrow> event list \<Rightarrow> bool" where
  "deleted b [] = False"
| "deleted b (Sent (DeleteBranch b') rep # evs) =
     (b' = b \<and> (case raise_for_reply rep of Inl e \<Rightarrow> False | Inr body \<Rightarrow> True)
      \<or> deleted b evs)"
| "deleted b (ev # evs) = deleted b evs"

text \<open>
  The part of the state the client's decisions depend on, and what the retry wrapper
  returns for a request on a host that answers from a table.
\<close>

definition client :: "'w state \<Rightarrow> int \<times> json \<times> json" where
  "client s = (max_retries s, project_info s, default_branch s)"

definition table_result :: "(request \<Rightarrow> reply) \<Rightarrow> int \<Rightarrow> request \<Rightarrow> exn + json option" where
  "table_result table attempts req =
     (if attempts \<le> 0 then Inl TypeError else raise_for_reply (table req))"


section \<open>Properties of the retry wrapper\<close>

lemma retry_loop_trace:
  "retry_loop [i ..< n] le (make_request srv req) s = (r, s') \<Longrightarrow>
   nat (max_retries s) = n \<Longrightarrow>
   \<exists>reps. trace s' = trace s @ backoff_trace i req reps
        \<and> length reps \<le> n - i
        \<and> (reps = [] \<longrightarrow> r = Inl (case le of None \<Rightarrow> TypeError | Some e \<Rightarrow> e))
        \<and> (reps \<noteq> [] \<longrightarrow> r = raise_for_reply (last reps))
        \<and> (\<forall>e. r = Inl e \<longrightarrow> length reps = n - i)
        \<and> (i < n \<longrightarrow> reps \<noteq> [])
        \<and> (\<forall>rep\<in>set (butlast reps). \<exists>e. raise_for_reply rep = Inl e)"
proof (induction "n - i" arbitrary: i le s)
  case 0
  then have "[i ..< n] = []" by simp
  with 0 show ?case
    by (intro exI [of _ "[]"]) (auto split: option.splits)
next
  case (Suc k)
  then have lt: "i < n" and k: "k = n - Suc i" by auto
  then have upt: "[i ..< n] = i # [Suc i ..< n]" by (simp add: upt_conv_Cons)
  from lt Suc.prems(2) have mr: "max_retries s = int n" by auto
  obtain rep dt w' where srv: "srv req (remote s) = ((rep, dt), w')"
    by (metis surj_pair)
  define s1 where "s1 = s\<lparr>now := now s + int dt, trace := trace s @ [Sent req rep], remote := w'\<rparr>"
  have mk: "make_request srv req s = (raise_for_reply rep, s1)"
    by (simp add: make_request_def srv s1_def)
  have mr1: "max_retries s1 = int n" by (simp add: s1_def mr)
  show ?case
  proof (cases "raise_for_reply rep")
    case (Inr v)
    with Suc.prems(1) upt mk have "r = Inr v" "s' = s1" by auto
    then show ?thesis
      using Inr lt by (intro exI [of _ "[rep]"]) (auto simp: s1_def)
  next
    case (Inl e)
    show ?thesis
    proof (cases "Suc i < n")
      case True
      define s2 where "s2 = s1\<lparr>now := now s1 + (int i + 1) * 2,
          trace := trace s1 @ [Slept ((int i + 1) * 2)]\<rparr>"
      from True have "int i < max_retries s1 - 1" using mr1 by simp
      with Suc.prems(1) upt mk Inl
      have rl: "retry_loop [Suc i ..< n] (Some e) (make_request srv req) s2 = (r, s')"
        by (simp add: sleep_def s2_def)
      have "nat (max_retries s2) = n" by (simp add: s2_def mr1)
      from Suc.hyps(1) [OF k rl this] obtain reps where
        reps: "trace s' = trace s2 @ backoff_trace (Suc i) req reps"
          "length reps \<le> n - Suc i"
          "reps = [] \<longrightarrow> r = Inl e"
          "reps \<noteq> [] \<longrightarrow> r = raise_for_reply (last reps)"
          "\<forall>e. r = Inl e \<longrightarrow> length reps = n - Suc i"
          "\<forall>rep\<in>set (butlast reps). \<exists>e. raise_for_reply rep = Inl e"
        by auto
      from reps(3,5) True have ne: "reps \<noteq> []" by auto
      then obtain rep' reps' where cons: "reps = rep' # reps'" by (cases reps) auto
      have "trace s' = trace s @ backoff_trace i req (rep # reps)"
        using reps(1) cons by (simp add: s2_def s1_def algebra_simps)
      moreover have "length (rep # reps) \<le> n - i" using reps(2) True by simp
      moreover have "r = raise_for_reply (last (rep # reps))" using reps(4) ne by simp
      moreover have "\<forall>e. r = Inl e \<longrightarrow> length (rep # reps) = n - i"
        using reps(5) True by auto
      moreover have "\<forall>x\<in>set (butlast (rep # reps)). \<exists>e. raise_for_reply x = Inl e"
        using reps(6) ne Inl by auto
      ultimately show ?thesis by (intro exI [of _ "rep # reps"]) simp
    next
      case False
      with lt have n: "n = Suc i" by simp
      then have "\<not> int i < max_retries s1 - 1" using mr1 by simp
      with Suc.prems(1) upt mk Inl n have "r = Inl e" "s' = s1" by auto
      then show ?thesis
        using Inl n by (intro exI [of _ "[rep]"]) (auto simp: s1_def)
    qed
  qed
qed

text \<open>
  Claim C8. A call that goes through the retry wrapper is sent at most \<open>max_retries\<close>
  times, and the log of the run is that of linear backoff (a sleep of twice the attempt
  number between two consecutive attempts). With at least one attempt configured the call
  is sent, every attempt but the last one made has failed, and the wrapper ends as the last
  attempt made ends: it returns the answer of that attempt, or raises the very error that
  attempt met. The attempts stop before \<open>max_retries\<close> only on an answer that does not
  raise; so when every attempt fails, all \<open>max_retries\<close> attempts are made and the error of
  the last one is raised to the caller. With no attempt configured nothing is sent and the
  wrapper raises a \<open>TypeError\<close> (it raises the last error, which is still \<open>None\<close>).
\<close>

theorem simple_retry_bounded_linear_backoff:
  "simple_retry (make_request srv req) s = (r, s') \<Longrightarrow>
   \<exists>reps. trace s' = trace s @ backoff_trace 0 req reps
        \<and> length reps \<le> nat (max_retries s)
        \<and> (0 < max_retries s \<longrightarrow> reps \<noteq> [] \<and> r = raise_for_reply (last reps))
        \<and> (\<forall>rep\<in>set (butlast reps). \<exists>e. raise_for_reply rep = Inl e)
        \<and> (\<forall>e. 0 < max_retries s \<and> raise_for_reply (last reps) = Inl e \<longrightarrow>
              length reps = nat (max_retries s) \<and> r = Inl e)
        \<and> (\<forall>e. (\<forall>rep\<in>set reps. \<exists>e'. raise_for_reply rep = Inl e') \<and> reps \<noteq> []
              \<and> raise_for_reply (last reps) = Inl e \<longrightarrow>
              length reps = nat (max_retries s) \<and> r = Inl e)
        \<and> (max_retries s \<le> 0 \<longrightarrow> reps = [] \<and> r = Inl TypeError)"
proof -
  assume a: "simple_retry (make_request srv req) s = (r, s')"
  then have "retry_loop [0 ..< nat (max_retries s)] None (make_request srv req) s = (r, s')"
    by (simp add: simple_retry_def)
  from retry_loop_trace [OF this refl] obtain reps where
    reps: "trace s' = trace s @ backoff_trace 0 req reps"
      "length reps \<le> nat (max_retries s) - 0"
      "reps \<noteq> [] \<longrightarrow> r = raise_for_reply (last reps)"
      "\<forall>e. r = Inl e \<longrightarrow> length reps = nat (max_retries s) - 0"
      "0 < nat (max_retries s) \<longrightarrow> reps \<noteq> []"
      "\<forall>rep\<in>set (butlast reps). \<exists>e. raise_for_reply rep = Inl e"
      "reps = [] \<longrightarrow> r = Inl (case None :: exn option of None \<Rightarrow> TypeError | Some e \<Rightarrow> e)"
    by (elim exE conjE) (rule that)
  show ?thesis
  proof (intro exI [of _ reps] conjI allI impI)
    show "trace s' = trace s @ backoff_trace 0 req reps" by (rule reps(1))
    show "length reps \<le> nat (max_retries s)" using reps(2) by simp
    show "\<forall>rep\<in>set (butlast reps). \<exists>e. raise_for_reply rep = Inl e" by (rule reps(6))
  next
    assume "0 < max_retries s"
    with reps(5) show "reps \<noteq> []" by simp
    with reps(3) show "r = raise_for_reply (last reps)" by simp
  next
    fix e assume h: "0 < max_retries s \<and> raise_for_reply (last reps) = Inl e"
    with reps(5) have "reps \<noteq> []" by simp
    with reps(3) h show "r = Inl e" by simp
    with reps(4) show "length reps = nat (max_retries s)" by simp
  next
    fix e assume h: "(\<forall>rep\<in>set reps. \<exists>e'. raise_for_reply rep = Inl e') \<and> reps \<noteq> []
              \<and> raise_for_reply (last reps) = Inl e"
    with reps(3) show "r = Inl e" by simp
    with reps(4) show "length reps = nat (max_retries s)" by simp
  next
    assume "max_retries s \<le> 0"
    with reps(2) show "reps = []" by simp
    with reps(7) show "r = Inl TypeError" by simp
  qed
qed

lemma retry_down_run:
  "fst (simple_retry (make_request script_server ListBranches) (init_state [])) = Inl RequestException"
  by code_simp

theorem simple_retry_bounded_linear_backoff_witness:
  "\<exists>reps. trace (snd (simple_retry (make_request script_server ListBranches) (init_state [])))
            = backoff_trace 0 ListBranches reps
        \<and> length reps = 3
        \<and> raise_for_reply (last reps) = Inl RequestException
        \<and> fst (simple_retry (make_request script_server ListBranches) (init_state []))
            = raise_for_reply (last reps)"
proof -
  have run: "simple_retry (make_request script_server ListBranches) (init_state [])
      = (Inl RequestException,
         snd (simple_retry (make_request script_server ListBranches) (init_state [])))"
    using retry_down_run by (simp add: prod_eq_iff)
  have pos: "0 < max_retries (init_state ([] :: reply list))" by (simp add: init_state_def)
  from simple_retry_bounded_linear_backoff [OF run] obtain reps where
    reps: "trace (snd (simple_retry (make_request script_server ListBranches) (init_state [])))
             = trace (init_state ([] :: reply list)) @ backoff_trace 0 ListBranches reps"
      "0 < max_retries (init_state ([] :: reply list)) \<longrightarrow>
         reps \<noteq> [] \<and> Inl RequestException = raise_for_reply (last reps)"
      "\<forall>e. 0 < max_retries (init_state ([] :: reply list))
            \<and> raise_for_reply (last reps) = Inl e \<longrightarrow>
         length reps = nat (max_retries (init_state ([] :: reply list)))
         \<and> Inl RequestException = (Inl e :: exn + json option)"
    by blast
  from reps(2) pos have last: "raise_for_reply (last reps) = Inl RequestException" by simp
  with reps(3) pos have "length reps = 3" by (simp add: init_state_def)
  with reps(1) last retry_down_run show ?thesis
    by (intro exI [of _ reps]) (simp add: init_state_def)
qed

text \<open>
  The error that is raised is the one of the last attempt: when the attempts fail in
  different ways, the earlier errors are not seen by the caller.
\<close>

lemma simple_retry_raises_last_error:
  "fst (simple_retry (make_request script_server ListBranches)
          (init_state [NoReply, Reply 500 None, Reply 502 None])) = Inl (HTTPError 502)"
  by code_simp

text \<open>
  With no attempt configured the call is never sent and the wrapper raises the
  \<^verbatim>\<open>TypeError\<close> of \<^verbatim>\<open>raise None\<close>.
\<close>

lemma simple_retry_no_attempt:
  "max_retries s \<le> 0 \<Longrightarrow> simple_retry func s = (Inl TypeError, s)"
  by (simp add: simple_retry_def)

text \<open>How the retry wrapper ends: at once on an answer that does not raise, ...\<close>

lemma retry_first_attempt:
  assumes "0 < max_retries s" and "srv req (remote s) = ((rep, dt), w')"
    and "raise_for_reply rep = Inr body"
  shows "simple_retry (make_request srv req) s
      = (Inr body, s\<lparr>now := now s + int dt, trace := trace s @ [Sent req rep], remote := w'\<rparr>)"
proof -
  from assms(1) have "[0 ..< nat (max_retries s)] = 0 # [Suc 0 ..< nat (max_retries s)]"
    by (simp add: upt_conv_Cons)
  with assms(2,3) show ?thesis
    by (simp add: simple_retry_def make_request_def)
qed

text \<open>... and with the error of the host when the host refuses every attempt the same way.\<close>

lemma retry_loop_all_fail:
  assumes "srv req w = ((rep, dt), w)" and "raise_for_reply rep = Inl e"
  shows "remote s = w \<Longrightarrow>
         \<exists>s'. retry_loop attempts le (make_request srv req) s
                = (Inl (if attempts = [] then (case le of None \<Rightarrow> TypeError | Some e0 \<Rightarrow> e0)
                        else e), s')
              \<and> remote s' = w \<and> same_client s s'"
proof (induction attempts arbitrary: le s)
  case Nil
  then show ?case by (auto simp: same_client_def split: option.splits)
next
  case (Cons attempt rest)
  define s1 where "s1 = s\<lparr>now := now s + int dt, trace := trace s @ [Sent req rep], remote := w\<rparr>"
  have mk: "make_request srv req s = (Inl e, s1)"
    using assms Cons.prems by (simp add: make_request_def s1_def)
  have r1: "remote s1 = w" and c1: "same_client s s1"
    by (simp_all add: s1_def same_client_def)
  show ?case
  proof (cases "int attempt < max_retries s1 - 1")
    case True
    define s2 where "s2 = s1\<lparr>now := now s1 + (int attempt + 1) * 2,
        trace := trace s1 @ [Slept ((int attempt + 1) * 2)]\<rparr>"
    have r2: "remote s2 = w" and c2: "same_client s s2"
      using r1 c1 by (simp_all add: s2_def same_client_def)
    from Cons.IH [OF r2, of "Some e"] obtain s' where
      "retry_loop rest (Some e) (make_request srv req) s2
         = (Inl (if rest = [] then e else e), s')" "remote s' = w" "same_client s2 s'"
      by auto
    with mk True c2 show ?thesis
      by (auto simp: sleep_def s2_def same_client_def)
  next
    case False
    from Cons.IH [OF r1, of "Some e"] obtain s' where
      "retry_loop rest (Some e) (make_request srv req) s1
         = (Inl (if rest = [] then e else e), s')" "remote s' = w" "same_client s1 s'"
      by auto
    with mk False c1 show ?thesis
      by (auto simp: same_client_def)
  qed
qed

lemma retry_all_fail:
  assumes "0 < max_retries s" and "srv req (remote s) = ((rep, dt), remote s)"
    and "raise_for_reply rep = Inl e"
  shows "\<exists>s'. simple_retry (make_request srv req) s = (Inl e, s')
           \<and> remote s' = remote s \<and> same_client s s'"
proof -
  from assms(1) have ne: "[0 ..< nat (max_retries s)] \<noteq> []" by simp
  from retry_loop_all_fail [where srv = srv and req = req and w = "remote s" and s = s
      and attempts = "[0 ..< nat (max_retries s)]" and le = None, OF assms(2,3) refl] ne
  show ?thesis by (simp add: simple_retry_def)
qed

lemma retry_first_attempt_client:
  assumes "0 < max_retries s" and "srv req (remote s) = ((rep, dt), w')"
    and "raise_for_reply rep = Inr body"
  shows "\<exists>s'. simple_retry (make_request srv req) s = (Inr body, s')
           \<and> remote s' = w' \<and> same_client s s'"
  using retry_first_attempt [where srv = srv and req = req and s = s, OF assms]
  by (simp add: same_client_def)


section \<open>Properties of language detection\<close>

lemma python_count_no_ext:
  "\<forall>f\<in>set fl. \<not> endswith f ''.py'' \<Longrightarrow> python_count fl = indicator_hits python_indicators fl"
  by (simp add: python_count_def Let_def filter_empty_conv)

lemma nodejs_count_no_ext:
  "\<forall>f\<in>set fl. \<not> endswith f ''.js'' \<Longrightarrow> nodejs_count fl = indicator_hits nodejs_indicators fl"
  by (simp add: nodejs_count_def Let_def filter_empty_conv)

text \<open>
  Claim C9. When the two scores are equal and nonzero the detected language is
  \<open>python\<close>, the ecosystem that is scored first; in particular this is so for a listing
  that holds exactly one marker file of each ecosystem and no \<^verbatim>\<open>.py\<close> or \<^verbatim>\<open>.js\<close>
  file. The answer \<open>unknown\<close> is given exactly when both scores are zero.
\<close>

theorem detect_language_tie_python:
  "(python_count (map lower files) = nodejs_count (map lower files)
      \<and> 0 < python_count (map lower files)
      \<longrightarrow> detect_language files = ''python'')
   \<and> (indicator_hits python_indicators (map lower files) = 1
      \<and> indicator_hits nodejs_indicators (map lower files) = 1
      \<and> (\<forall>f\<in>set (map lower files). \<not> endswith f ''.py'' \<and> \<not> endswith f ''.js'')
      \<longrightarrow> detect_language files = ''python'')
   \<and> (detect_language files = ''unknown''
      \<longleftrightarrow> python_count (map lower files) = 0 \<and> nodejs_count (map lower files) = 0)"
proof (intro conjI impI)
  assume "python_count (map lower files) = nodejs_count (map lower files)
            \<and> 0 < python_count (map lower files)"
  then show "detect_language files = ''python''"
    by (simp add: detect_language_def Let_def)
next
  assume h: "indicator_hits python_indicators (map lower files) = 1
      \<and> indicator_hits nodejs_indicators (map lower files) = 1
      \<and> (\<forall>f\<in>set (map lower files). \<not> endswith f ''.py'' \<and> \<not> endswith f ''.js'')"
  then have "python_count (map lower files) = 1" "nodejs_count (map lower files) = 1"
    using python_count_no_ext [of "map lower files"] nodejs_count_no_ext [of "map lower files"]
    by auto
  then show "detect_language files = ''python''"
    by (simp add: detect_language_def Let_def)
next
  show "detect_language files = ''unknown''
      \<longleftrightarrow> python_count (map lower files) = 0 \<and> nodejs_count (map lower files) = 0"
    by (auto simp: detect_language_def Let_def)
qed

theorem detect_language_tie_python_witness:
  "indicator_hits python_indicators (map lower [''requirements.txt'', ''Package.json'']) = 1
   \<and> indicator_hits nodejs_indicators (map lower [''requirements.txt'', ''Package.json'']) = 1
   \<and> list_all (\<lambda>f. \<not> endswith f ''.py'' \<and> \<not> endswith f ''.js'')
         (map lower [''requirements.txt'', ''Package.json''])
   \<and> detect_language [''requirements.txt'', ''Package.json''] = ''python''"
proof -
  have h: "indicator_hits python_indicators (map lower [''requirements.txt'', ''Package.json'']) = 1
   \<and> indicator_hits nodejs_indicators (map lower [''requirements.txt'', ''Package.json'']) = 1
   \<and> (\<forall>f\<in>set (map lower [''requirements.txt'', ''Package.json'']).
         \<not> endswith f ''.py'' \<and> \<not> endswith f ''.js'')"
    by (simp add: indicator_hits_def python_indicators_def nodejs_indicators_def
        lower_def lower_char_def endswith_def)
  from detect_language_tie_python [of "[''requirements.txt'', ''Package.json'']"] h
  have "detect_language [''requirements.txt'', ''Package.json''] = ''python''"
    by blast
  with h show ?thesis by (simp add: list_all_iff)
qed


section \<open>Properties of the pipeline monitor\<close>








text \<open>
  Claim C10. With \<^verbatim>\<open>max_wait_time\<close> zero or negative the loop body never runs: the
  result is the timeout result with a check count of zero, and the state (so the log of
  calls sent to the host) is the one the method started in.
\<close>

theorem monitor_pipeline_nonpositive_wait:
  "max_wait_time \<le> 0 \<Longrightarrow>
   monitor_pipeline srv check_interval pid max_wait_time s =
     Some (Inr \<lparr>status = JStr ''timeout'', error = None, pipeline_id = Some pid,
                duration = Some max_wait_time, checks = Some 0,
                failure_analysis = None\<rparr>, s)"
  unfolding monitor_pipeline_def by (subst monitor_loop.simps) simp

theorem monitor_pipeline_nonpositive_wait_witness:
  "monitor_pipeline script_server 30 7 0
     (init_state [Reply 200 (Some (JObj [(''status'', JStr ''success'')]))]) =
     Some (Inr \<lparr>status = JStr ''timeout'', error = None, pipeline_id = Some 7,
                duration = Some 0, checks = Some 0, failure_analysis = None\<rparr>,
           init_state [Reply 200 (Some (JObj [(''status'', JStr ''success'')]))])"
proof -
  have "(0::int) \<le> 0" by simp
  then show ?thesis by (rule monitor_pipeline_nonpositive_wait)
qed


section \<open>Properties of the branch list\<close>

lemma backoff_trace_Cons:
  "\<exists>evs. backoff_trace i req (rep # reps) = Sent req rep # evs"
  by (cases reps) auto

lemma simple_retry_sends_first:
  assumes "simple_retry (make_request srv req) s = (r, s')" and "0 < max_retries s"
  shows "\<exists>rep evs. trace s' = trace s @ Sent req rep # evs"
proof -
  from assms(1)
  have "retry_loop [0 ..< nat (max_retries s)] None (make_request srv req) s = (r, s')"
    by (simp add: simple_retry_def)
  from retry_loop_trace [OF this refl] assms(2) obtain reps where
    reps: "trace s' = trace s @ backoff_trace 0 req reps" "reps \<noteq> []"
    by auto
  then obtain rep reps' where "reps = rep # reps'" by (cases reps) auto
  with reps(1) backoff_trace_Cons [of 0 req rep reps'] show ?thesis by auto
qed

lemma simple_retry_extends_trace:
  assumes "simple_retry (make_request srv req) s = (r, s')"
  shows "\<exists>evs. trace s' = trace s @ evs"
proof -
  from assms
  have "retry_loop [0 ..< nat (max_retries s)] None (make_request srv req) s = (r, s')"
    by (simp add: simple_retry_def)
  from retry_loop_trace [OF this refl] show ?thesis by blast
qed

lemma get_project_extends_trace:
  assumes "get_project srv s = (info, s')"
  shows "\<exists>evs. trace s' = trace s @ evs"
proof (cases "project_info s = JNull")
  case False
  with assms show ?thesis by (simp add: get_project_def)
next
  case True
  obtain r1 s1 where sr: "simple_retry (make_request srv GetProject) s = (r1, s1)"
    by (metis surj_pair)
  from simple_retry_extends_trace [OF sr] obtain evs where "trace s1 = trace s @ evs" ..
  with assms True sr show ?thesis
    by (auto simp: get_project_def split: sum.splits)
qed

lemma get_default_branch_extends_trace:
  assumes "get_default_branch srv s = (r, s')"
  shows "\<exists>evs. trace s' = trace s @ evs"
proof (cases "default_branch s = JNull")
  case False
  with assms show ?thesis by (simp add: get_default_branch_def)
next
  case True
  obtain info s1 where gp: "get_project srv s = (info, s1)" by (metis surj_pair)
  from get_project_extends_trace [OF gp] obtain evs where "trace s1 = trace s @ evs" ..
  with assms True gp show ?thesis
    by (auto simp: get_default_branch_def split: sum.splits if_splits)
qed

text \<open>
  Claim C2, as the code has it. The body of the \<^verbatim>\<open>try\<close> fails in one of two ways: the
  branch-list call raises (on every attempt), or it returns and its reply cannot be decoded
  into the list of branch names. In both cases \<^verbatim>\<open>get_available_branches\<close> ends as
  \<^verbatim>\<open>get_default_branch\<close> ends at that moment: when that call returns a branch the
  result is the list that holds this branch alone, and when that call raises, its exception
  is raised to the caller (the handler calls it unguarded). The result is never the empty
  list. The branch is the memoised default branch when there is one, and \<open>main\<close> when
  there is none and no project document is to be had. The list is not memoised: whatever
  state the client is in, a call with at least one attempt configured sends the branch-list
  request to the host first.
\<close>

theorem get_available_branches_error_default:
  "(simple_retry (make_request srv ListBranches) s = (r1, s1)
      \<and> (r1 = Inl e \<or> (r1 = Inr body \<and> branch_names body = Inl e))
      \<longrightarrow> get_available_branches srv s
            = (case get_default_branch srv s1 of
                 (Inl e', s2) \<Rightarrow> (Inl e', s2)
               | (Inr d, s2) \<Rightarrow> (Inr [d], s2))
          \<and> fst (get_available_branches srv s) \<noteq> Inr []
          \<and> (default_branch s1 \<noteq> JNull
               \<longrightarrow> get_available_branches srv s = (Inr [default_branch s1], s1))
          \<and> (default_branch s1 = JNull \<and> \<not> truthy (fst (get_project srv s1))
               \<longrightarrow> fst (get_available_branches srv s) = Inr [JStr ''main'']))
   \<and> (0 < max_retries s \<and> get_available_branches srv s = (r, s')
      \<longrightarrow> (\<exists>rep evs. trace s' = trace s @ Sent ListBranches rep # evs))"
proof (intro conjI impI)
  assume a: "simple_retry (make_request srv ListBranches) s = (r1, s1)
      \<and> (r1 = Inl e \<or> (r1 = Inr body \<and> branch_names body = Inl e))"
  then have handler: "get_available_branches srv s = default_branch_only srv s1"
    by (auto simp: get_available_branches_def)
  then show res: "get_available_branches srv s
            = (case get_default_branch srv s1 of
                 (Inl e', s2) \<Rightarrow> (Inl e', s2)
               | (Inr d, s2) \<Rightarrow> (Inr [d], s2))"
    by (simp add: default_branch_only_def)
  show "fst (get_available_branches srv s) \<noteq> Inr []"
    unfolding res by (simp split: prod.splits sum.splits)
  {
    assume "default_branch s1 \<noteq> JNull"
    then show "get_available_branches srv s = (Inr [default_branch s1], s1)"
      unfolding res by (simp add: get_default_branch_def)
  }
  {
    assume "default_branch s1 = JNull \<and> \<not> truthy (fst (get_project srv s1))"
    then show "fst (get_available_branches srv s) = Inr [JStr ''main'']"
      unfolding res by (cases "get_project srv s1") (simp add: get_default_branch_def)
  }
next
  assume a: "0 < max_retries s \<and> get_available_branches srv s = (r, s')"
  obtain r1 t1 where sr: "simple_retry (make_request srv ListBranches) s = (r1, t1)"
    by (metis surj_pair)
  from simple_retry_sends_first [OF sr] a obtain rep evs where
    first: "trace t1 = trace s @ Sent ListBranches rep # evs" by blast
  obtain r2 t2 where gd: "get_default_branch srv t1 = (r2, t2)" by (metis surj_pair)
  from get_default_branch_extends_trace [OF gd] obtain evs' where
    ext: "trace t2 = trace t1 @ evs'" ..
  from a sr gd have "s' = t1 \<or> s' = t2"
    by (auto simp: get_available_branches_def default_branch_only_def split: sum.splits)
  with first ext show "\<exists>rep evs. trace s' = trace s @ Sent ListBranches rep # evs"
    by auto
qed

text \<open>
  Two runs. A host that never answers: every attempt of the branch-list call raises. A host
  that answers the branch-list call once, with no document in the body, and never again: the
  call returns and the decoding raises. In both the project document cannot be had and the
  result is \<open>main\<close> alone.
\<close>

lemma list_branches_no_answer:
  "fst (simple_retry (make_request script_server ListBranches) (init_state []))
     = Inl RequestException"
  by code_simp

lemma list_branches_no_document:
  "fst (simple_retry (make_request script_server ListBranches) (init_state [Reply 200 None]))
     = Inr None"
  by code_simp

lemma branch_names_no_document: "branch_names None = Inl JSONDecodeError"
  by code_simp

lemma no_default_no_answer:
  "default_branch (snd (simple_retry (make_request script_server ListBranches) (init_state [])))
     = JNull
   \<and> \<not> truthy (fst (get_project script_server
         (snd (simple_retry (make_request script_server ListBranches) (init_state [])))))"
  by code_simp

lemma no_default_no_document:
  "default_branch (snd (simple_retry (make_request script_server ListBranches)
         (init_state [Reply 200 None]))) = JNull
   \<and> \<not> truthy (fst (get_project script_server
         (snd (simple_retry (make_request script_server ListBranches)
            (init_state [Reply 200 None])))))"
  by code_simp

theorem get_available_branches_error_default_witness:
  "fst (get_available_branches script_server (init_state [])) = Inr [JStr ''main'']
   \<and> fst (get_available_branches script_server (init_state [Reply 200 None]))
       = Inr [JStr ''main'']
   \<and> (\<exists>rep evs. trace (snd (get_available_branches script_server (init_state [])))
         = Sent ListBranches rep # evs)"
proof -
  define s1 where "s1 = snd (simple_retry (make_request script_server ListBranches) (init_state []))"
  define t1 where
    "t1 = snd (simple_retry (make_request script_server ListBranches) (init_state [Reply 200 None]))"
  have a: "simple_retry (make_request script_server ListBranches) (init_state [])
      = (Inl RequestException, s1)"
    using list_branches_no_answer by (simp add: prod_eq_iff s1_def)
  have b: "default_branch s1 = JNull \<and> \<not> truthy (fst (get_project script_server s1))"
    using no_default_no_answer by (simp add: s1_def)
  have c: "simple_retry (make_request script_server ListBranches) (init_state [Reply 200 None])
      = (Inr None, t1)"
    using list_branches_no_document by (simp add: prod_eq_iff t1_def)
  have d: "default_branch t1 = JNull \<and> \<not> truthy (fst (get_project script_server t1))"
    using no_default_no_document by (simp add: t1_def)
  note inst = get_available_branches_error_default
    [where srv = script_server and s = "init_state []" and ?r1.0 = "Inl RequestException"
       and e = RequestException and ?s1.0 = s1
       and r = "fst (get_available_branches script_server (init_state []))"
       and s' = "snd (get_available_branches script_server (init_state []))"]
  note inst' = get_available_branches_error_default
    [where srv = script_server and s = "init_state [Reply 200 None]" and ?r1.0 = "Inr None"
       and body = None and e = JSONDecodeError and ?s1.0 = t1]
  from inst [THEN conjunct1] a b
  have "fst (get_available_branches script_server (init_state [])) = Inr [JStr ''main'']"
    by blast
  moreover from inst' [THEN conjunct1] c d branch_names_no_document
  have "fst (get_available_branches script_server (init_state [Reply 200 None]))
      = Inr [JStr ''main'']"
    by blast
  moreover have "\<exists>rep evs. trace (snd (get_available_branches script_server (init_state [])))
         = trace (init_state ([] :: reply list)) @ Sent ListBranches rep # evs"
  proof -
    have pos: "0 < max_retries (init_state ([] :: reply list))" by (simp add: init_state_def)
    have pair: "get_available_branches script_server (init_state []) =
        (fst (get_available_branches script_server (init_state [])),
         snd (get_available_branches script_server (init_state [])))"
      by simp
    from inst [THEN conjunct2] pos pair show ?thesis by blast
  qed
  ultimately show ?thesis by (simp add: init_state_def)
qed

text \<open>
  The claim as the specification words it fails: with a host that never answers, every
  attempt of the branch-list call raises and the result is not the empty list.
\<close>

theorem get_available_branches_error_counterexample:
  "fst (simple_retry (make_request script_server ListBranches) (init_state []))
     = Inl RequestException
   \<and> fst (get_available_branches script_server (init_state [])) \<noteq> Inr []"
proof -
  have "fst (get_available_branches script_server (init_state [])) = Inr [JStr ''main'']"
    by code_simp
  with list_branches_no_answer show ?thesis by simp
qed


section \<open>Properties of the generation workflow\<close>

text \<open>
  The steps whose failure does end the workflow with no outcome: a branch that is not
  created, file actions that cannot be built or are empty, a failed commit, and a
  merge-request creation that raises.
\<close>

lemma generate_and_commit_branch_failure:
  "create_branch srv (get_branch_names cfg) (get_best_source_branch pd) s = (r, s1) \<Longrightarrow>
   r \<noteq> Inr True \<Longrightarrow> generate_and_commit srv ev pd cfg s = (None, s1)"
  by (cases r) (auto simp: generate_and_commit_def Let_def)

lemma generate_and_commit_actions_failure:
  "create_branch srv (get_branch_names cfg) (get_best_source_branch pd) s = (Inr True, s1) \<Longrightarrow>
   create_pipeline_files srv ev pd cfg (get_best_source_branch pd) s1 = (r, s2) \<Longrightarrow>
   r = Inl e \<or> r = Inr [] \<Longrightarrow>
   generate_and_commit srv ev pd cfg s = (None, s2)"
  by (auto simp: generate_and_commit_def Let_def)

lemma generate_and_commit_commit_failure:
  "create_branch srv (get_branch_names cfg) (get_best_source_branch pd) s = (Inr True, s1) \<Longrightarrow>
   create_pipeline_files srv ev pd cfg (get_best_source_branch pd) s1 = (Inr actions, s2) \<Longrightarrow>
   actions \<noteq> [] \<Longrightarrow>
   commit_files srv (get_branch_names cfg)
     ((if pd_has_pipeline pd then ''Update'' else ''Add'') @ '' pipeline configuration for ''
        @ pd_type pd @ [CHR 0x0A, CHR 0x0A] @ ''Generated by PipeOps CLI'' @ [CHR 0x0A]
        @ ''Based on: '' @ py_str (get_best_source_branch pd))
     actions s2 = (commit_result, s3) \<Longrightarrow>
   \<not> truthy commit_result \<Longrightarrow>
   generate_and_commit srv ev pd cfg s = (None, s3)"
  by (simp add: generate_and_commit_def Let_def)

lemma generate_and_commit_merge_request_raises:
  "create_branch srv (get_branch_names cfg) (get_best_source_branch pd) s = (Inr True, s1) \<Longrightarrow>
   create_pipeline_files srv ev pd cfg (get_best_source_branch pd) s1 = (Inr actions, s2) \<Longrightarrow>
   actions \<noteq> [] \<Longrightarrow>
   commit_files srv (get_branch_names cfg)
     ((if pd_has_pipeline pd then ''Update'' else ''Add'') @ '' pipeline configuration for ''
        @ pd_type pd @ [CHR 0x0A, CHR 0x0A] @ ''Generated by PipeOps CLI'' @ [CHR 0x0A]
        @ ''Based on: '' @ py_str (get_best_source_branch pd))
     actions s2 = (commit_result, s3) \<Longrightarrow>
   truthy commit_result \<Longrightarrow>
   map_of (pipelines cfg) (pd_type pd) = Some pc \<Longrightarrow>
   create_merge_request srv
     (''PipeOps: '' @ (if pd_has_pipeline pd then ''Update'' else ''Add'') @ '' pipeline for ''
        @ pd_type pd)
     (get_branch_names cfg) (get_best_target_branch pd)
     (Some (create_mr_description pd pc actions (get_best_source_branch pd) ev)) s3
     = (Inl e, s4) \<Longrightarrow>
   generate_and_commit srv ev pd cfg s = (None, s4)"
  by (simp add: generate_and_commit_def Let_def)

text \<open>
  Claim C3 is not met by the code in one case: when the merge-request creation fails
  with an exception that is not an \<^verbatim>\<open>HTTPError\<close> (here the host does not answer any of
  the three attempts), \<^verbatim>\<open>create_merge_request\<close> returns \<^verbatim>\<open>None\<close> instead of raising,
  and \<^verbatim>\<open>generate_and_commit\<close>, which tests the results of the branch and commit steps
  but not this one, returns an outcome with \<open>success\<close> set and no merge request. No
  deletion is sent during the run.
\<close>

theorem generate_and_commit_lost_merge_request:
  "fst (generate_and_commit (table_server mr_down_table) demo_env demo_project demo_config
          (init_state ()))
     = Some \<lparr>success = True, branch_name = ''feature/pipeops'',
              source_branch = JStr ''main'', target_branch = JStr ''main'',
              commit = JObj [(''id'', JStr ''c0ffee'')], merge_request = JNull,
              files_created = 2, pipeline_type = ''python_service'',
              pipeline_triggered = False\<rparr>
   \<and> merge_request_replies
        (trace (snd (generate_and_commit (table_server mr_down_table) demo_env demo_project
                       demo_config (init_state ()))))
       = [NoReply, NoReply, NoReply]
   \<and> deletions
        (trace (snd (generate_and_commit (table_server mr_down_table) demo_env demo_project
                       demo_config (init_state ()))))
       = []"
  by code_simp


section \<open>Properties of merge-request creation\<close>

text \<open>
  Claim C4. When the creation call ends in a 409 and the list of open merge requests of
  the source branch starts with a (non-empty) merge-request object, in particular when it
  holds exactly that one, \<^verbatim>\<open>create_merge_request\<close> returns that object.
\<close>

theorem create_merge_request_conflict_returns_existing:
  assumes target: "(if target_branch0 = JNull then select_target srv s
                    else (Inr target_branch0, s)) = (Inr target, s0)"
    and conflict: "simple_retry (make_request srv
                     (PostMergeRequest source target title
                        (case description of
                           None \<Rightarrow> None
                         | Some d \<Rightarrow> if d \<noteq> [] then Some d else None))) s0
                   = (Inl (HTTPError 409), s1)"
    and lookup: "simple_retry (make_request srv (ListMergeRequests source)) s1
                   = (Inr (Some (JArr (JObj mr # others))), s2)"
    and object: "mr \<noteq> []"
  shows "create_merge_request srv title source target_branch0 description s = (Inr (JObj mr), s2)"
proof -
  from lookup object have "find_existing_mr srv source s1 = (JObj mr, s2)"
    by (simp add: find_existing_mr_def response_json_def ebind_def)
  with target conflict object show ?thesis
    by (simp add: create_merge_request_def)
qed

lemma conflict_post_run:
  "fst (simple_retry (make_request (table_server conflict_table)
          (PostMergeRequest ''feature/pipeops'' (JStr ''develop'') ''PipeOps'' None))
          (init_state ())) = Inl (HTTPError 409)"
  by code_simp

lemma conflict_lookup_run:
  "fst (simple_retry (make_request (table_server conflict_table)
          (ListMergeRequests ''feature/pipeops''))
          (snd (simple_retry (make_request (table_server conflict_table)
             (PostMergeRequest ''feature/pipeops'' (JStr ''develop'') ''PipeOps'' None))
             (init_state ()))))
   = Inr (Some (JArr [existing_mr]))"
  by code_simp

theorem create_merge_request_conflict_returns_existing_witness:
  "fst (create_merge_request (table_server conflict_table) ''PipeOps'' ''feature/pipeops''
          (JStr ''develop'') None (init_state ())) = Inr existing_mr"
proof -
  define s1 where "s1 = snd (simple_retry (make_request (table_server conflict_table)
             (PostMergeRequest ''feature/pipeops'' (JStr ''develop'') ''PipeOps'' None))
             (init_state ()))"
  define s2 where "s2 = snd (simple_retry (make_request (table_server conflict_table)
          (ListMergeRequests ''feature/pipeops'')) s1)"
  have target: "(if JStr ''develop'' = JNull then select_target (table_server conflict_table) (init_state ())
                 else (Inr (JStr ''develop''), init_state ())) = (Inr (JStr ''develop''), init_state ())"
    by simp
  have conflict: "simple_retry (make_request (table_server conflict_table)
                     (PostMergeRequest ''feature/pipeops'' (JStr ''develop'') ''PipeOps''
                        (case None of
                           None \<Rightarrow> None
                         | Some d \<Rightarrow> if d \<noteq> [] then Some d else None))) (init_state ())
                   = (Inl (HTTPError 409), s1)"
    using conflict_post_run by (simp add: prod_eq_iff s1_def)
  have lookup: "simple_retry (make_request (table_server conflict_table)
                     (ListMergeRequests ''feature/pipeops'')) s1
                   = (Inr (Some (JArr (JObj [(''iid'', JNum 5),
                        (''web_url'', JStr ''https://host/group/app/-/merge_requests/5'')] # []))), s2)"
    using conflict_lookup_run by (simp add: prod_eq_iff s1_def s2_def existing_mr_def)
  have object: "[(''iid'', JNum 5),
      (''web_url'', JStr ''https://host/group/app/-/merge_requests/5'')] \<noteq> []"
    by simp
  from create_merge_request_conflict_returns_existing [OF target conflict lookup object]
  show ?thesis by (simp add: existing_mr_def)
qed


section \<open>Properties of the file listing\<close>

text \<open>
  On a host that answers every request from a table, what a call returns and what it
  leaves in the memo fields depend on the number of attempts and the memo fields only.
\<close>

lemma table_simple_retry:
  assumes "simple_retry (make_request (table_server table) req) s = (r, s')"
  shows "r = table_result table (max_retries s) req \<and> client s' = client s"
proof (cases "0 < max_retries s")
  case False
  with assms show ?thesis by (simp add: simple_retry_def table_result_def)
next
  case True
  have ans: "table_server table req (remote s) = ((table req, 1), remote s)"
    by (simp add: table_server_def)
  show ?thesis
  proof (cases "raise_for_reply (table req)")
    case (Inr body)
    from retry_first_attempt [where srv = "table_server table" and req = req and s = s,
        OF True ans Inr] assms True Inr
    show ?thesis by (auto simp: table_result_def client_def)
  next
    case (Inl e)
    from retry_all_fail [where srv = "table_server table" and req = req and s = s,
        OF True ans Inl] assms True Inl
    show ?thesis by (auto simp: table_result_def client_def same_client_def)
  qed
qed

lemma table_get_project:
  assumes "client s = client t"
  shows "fst (get_project (table_server table) s) = fst (get_project (table_server table) t)
       \<and> client (snd (get_project (table_server table) s))
           = client (snd (get_project (table_server table) t))"
proof (cases "project_info s = JNull")
  case False
  with assms show ?thesis by (simp add: get_project_def client_def)
next
  case True
  with assms have tn: "project_info t = JNull" by (simp add: client_def)
  obtain r1 s1 where a: "simple_retry (make_request (table_server table) GetProject) s = (r1, s1)"
    by (metis surj_pair)
  obtain r2 t1 where b: "simple_retry (make_request (table_server table) GetProject) t = (r2, t1)"
    by (metis surj_pair)
  from table_simple_retry [OF a] table_simple_retry [OF b] assms
  have "r1 = r2" "client s1 = client t1" by (simp_all add: client_def)
  with True tn a b show ?thesis
    by (auto simp: get_project_def client_def split: sum.splits)
qed

lemma table_get_default_branch:
  assumes "client s = client t"
  shows "fst (get_default_branch (table_server table) s)
           = fst (get_default_branch (table_server table) t)
       \<and> client (snd (get_default_branch (table_server table) s))
           = client (snd (get_default_branch (table_server table) t))"
proof (cases "default_branch s = JNull")
  case False
  with assms show ?thesis by (simp add: get_default_branch_def client_def)
next
  case True
  with assms have tn: "default_branch t = JNull" by (simp add: client_def)
  obtain i1 s1 where a: "get_project (table_server table) s = (i1, s1)" by (metis surj_pair)
  obtain i2 t1 where b: "get_project (table_server table) t = (i2, t1)" by (metis surj_pair)
  from table_get_project [OF assms, of table] a b
  have "i1 = i2" "client s1 = client t1" by simp_all
  with True tn a b show ?thesis
    by (auto simp: get_default_branch_def client_def split: sum.splits)
qed

lemma table_get_available_branches:
  assumes "client s = client t"
  shows "fst (get_available_branches (table_server table) s)
           = fst (get_available_branches (table_server table) t)
       \<and> client (snd (get_available_branches (table_server table) s))
           = client (snd (get_available_branches (table_server table) t))"
proof -
  obtain r1 s1 where a: "simple_retry (make_request (table_server table) ListBranches) s = (r1, s1)"
    by (metis surj_pair)
  obtain r2 t1 where b: "simple_retry (make_request (table_server table) ListBranches) t = (r2, t1)"
    by (metis surj_pair)
  from table_simple_retry [OF a] table_simple_retry [OF b] assms
  have eq: "r1 = r2" "client s1 = client t1" by (simp_all add: client_def)
  from table_get_default_branch [OF eq(2), of table]
  have "fst (default_branch_only (table_server table) s1)
          = fst (default_branch_only (table_server table) t1)
      \<and> client (snd (default_branch_only (table_server table) s1))
          = client (snd (default_branch_only (table_server table) t1))"
    by (auto simp: default_branch_only_def split: prod.splits sum.splits)
  with a b eq show ?thesis
    by (auto simp: get_available_branches_def split: sum.splits)
qed

lemma table_try_common_branches:
  "client s = client t \<Longrightarrow>
   fst (try_common_branches (table_server table) ref available names s)
     = fst (try_common_branches (table_server table) ref available names t)"
proof (induction names arbitrary: s t)
  case Nil
  then show ?case by simp
next
  case (Cons branch rest)
  show ?case
  proof (cases "JStr branch \<in> set available \<and> JStr branch \<noteq> ref")
    case False
    then have skip: "try_common_branches (table_server table) ref available (branch # rest) u
        = try_common_branches (table_server table) ref available rest u" for u
      by (simp only: try_common_branches.simps if_False)
    from Cons.IH [OF Cons.prems] show ?thesis by (simp only: skip)
  next
    case True
    obtain r1 s1 where a:
      "simple_retry (make_request (table_server table) (GetTree (JStr branch))) s = (r1, s1)"
      by (metis surj_pair)
    obtain r2 t1 where b:
      "simple_retry (make_request (table_server table) (GetTree (JStr branch))) t = (r2, t1)"
      by (metis surj_pair)
    from table_simple_retry [OF a] table_simple_retry [OF b] Cons.prems
    have eq: "r1 = r2" "client s1 = client t1" by (simp_all add: client_def)
    note ih = Cons.IH [OF eq(2)]
    from b eq(1) have b':
      "simple_retry (make_request (table_server table) (GetTree (JStr branch))) t = (r1, t1)"
      by simp
    show ?thesis
    proof (cases r1)
      case (Inl e)
      with True a b' ih show ?thesis by simp
    next
      case (Inr body)
      show ?thesis
      proof (cases "blob_paths body")
        case bad: (Inl e)
        with Inr True a b' ih show ?thesis by simp
      next
        case good: (Inr files)
        with Inr True a b' show ?thesis by simp
      qed
    qed
  qed
qed

lemma client_cached_default:
  "client s = client t \<Longrightarrow> cached_default s = cached_default t"
  by (simp add: client_def cached_default_def)

text \<open>Listing the default branch itself, from two states that agree after its look-up.\<close>

lemma table_list_default:
  assumes d: "d \<noteq> JNull"
    and ds: "fst (get_default_branch (table_server table) s) = Inr d"
    and memo: "default_branch t = d"
    and same: "client (snd (get_default_branch (table_server table) s)) = client t"
    and tries: "max_retries s = max_retries t"
  shows "fst (get_file_list (table_server table) d s)
           = fst (get_file_list (table_server table) d t)"
proof -
  obtain r1 s1 where a:
    "simple_retry (make_request (table_server table) (GetTree d)) s = (r1, s1)"
    by (metis surj_pair)
  obtain r2 t1 where b:
    "simple_retry (make_request (table_server table) (GetTree d)) t = (r2, t1)"
    by (metis surj_pair)
  from table_simple_retry [OF a] table_simple_retry [OF b] tries
  have eq: "r2 = r1" and cs: "client s1 = client s" and ct: "client t1 = client t" by simp_all
  show ?thesis
  proof (cases "r1 = Inl (HTTPError 404)")
    case False
    have "fst (get_file_list (table_server table) d s)
        = (case r1 of
             Inl e \<Rightarrow> Inr []
           | Inr body \<Rightarrow> (case blob_paths body of Inl e \<Rightarrow> Inr [] | Inr files \<Rightarrow> Inr files))"
      using a d False
      by (subst get_file_list.simps) (auto split: sum.splits exn.splits)
    moreover have "fst (get_file_list (table_server table) d t)
        = (case r1 of
             Inl e \<Rightarrow> Inr []
           | Inr body \<Rightarrow> (case blob_paths body of Inl e \<Rightarrow> Inr [] | Inr files \<Rightarrow> Inr files))"
      using b eq d False
      by (subst get_file_list.simps) (auto split: sum.splits exn.splits)
    ultimately show ?thesis by simp
  next
    case True
    from ct memo d have dt1: "default_branch t1 = d" by (simp add: client_def)
    with d have gt: "get_default_branch (table_server table) t1 = (Inr d, t1)"
      by (simp add: get_default_branch_def)
    obtain q s2 where gs: "get_default_branch (table_server table) s1 = (q, s2)"
      by (metis surj_pair)
    from table_get_default_branch [OF cs, of table] gs ds
    have q: "q = Inr d" and c2: "client s2 = client (snd (get_default_branch (table_server table) s))"
      by simp_all
    from c2 same ct have c22: "client s2 = client t1" by simp
    obtain av1 s3 where as: "get_available_branches (table_server table) s2 = (av1, s3)"
      by (metis surj_pair)
    obtain av2 t3 where at: "get_available_branches (table_server table) t1 = (av2, t3)"
      by (metis surj_pair)
    from table_get_available_branches [OF c22, of table] as at
    have av: "av2 = av1" "client s3 = client t3" by simp_all
    have tc: "fst (try_common_branches (table_server table) d available
               [''main'', ''master'', ''develop''] s3)
        = fst (try_common_branches (table_server table) d available
               [''main'', ''master'', ''develop''] t3)" for available
      by (rule table_try_common_branches [OF av(2)])
    have ls: "fst (get_file_list (table_server table) d s)
        = (case av1 of Inl e \<Rightarrow> Inl e
           | Inr available \<Rightarrow>
               Inr (fst (try_common_branches (table_server table) d available
                      [''main'', ''master'', ''develop''] s3)))"
      using a True gs q as d
      by (subst get_file_list.simps) (simp split: sum.splits prod.splits)
    have lt: "fst (get_file_list (table_server table) d t)
        = (case av1 of Inl e \<Rightarrow> Inl e
           | Inr available \<Rightarrow>
               Inr (fst (try_common_branches (table_server table) d available
                      [''main'', ''master'', ''develop''] t3)))"
      using b eq True gt at av(1) d
      by (subst get_file_list.simps) (simp split: sum.splits prod.splits)
    from ls lt tc show ?thesis by (simp split: sum.splits)
  qed
qed

lemma get_default_branch_memo:
  "get_default_branch srv s = (Inr d, s') \<Longrightarrow> d \<noteq> JNull \<Longrightarrow> default_branch s' = d"
  by (auto simp: get_default_branch_def split: if_splits prod.splits sum.splits)

lemma get_default_branch_max_retries:
  assumes "get_default_branch srv s = (r, s')"
  shows "max_retries s' = max_retries s"
proof -
  obtain info s1 where gp: "get_project srv s = (info, s1)" by (metis surj_pair)
  obtain r0 s0 where sr: "simple_retry (make_request srv GetProject) s = (r0, s0)"
    by (metis surj_pair)
  from simple_retry_request_fields [OF sr] gp have "max_retries s1 = max_retries s"
    by (auto simp: get_project_def sr split: if_splits sum.splits)
  with assms gp show ?thesis
    by (auto simp: get_default_branch_def split: if_splits sum.splits)
qed

text \<open>
  Claim C5. When the listing of a given ref other than the default branch ends in a 404,
  \<^verbatim>\<open>get_file_list\<close> returns what the listing of the default branch returns in the state
  the failed attempts and the look-up of the default branch have left. On a host that
  answers every request the same way each time, this is also what the listing of the
  default branch returns when it is asked for directly, in place of the missing ref.
\<close>

theorem get_file_list_falls_back_to_default:
  "(ref \<noteq> JNull
      \<and> simple_retry (make_request srv (GetTree ref)) s = (Inl (HTTPError 404), s1)
      \<and> get_default_branch srv s1 = (Inr d, s2) \<and> ref \<noteq> d
    \<longrightarrow> get_file_list srv ref s = get_file_list srv d s2)
   \<and> (ref' \<noteq> JNull \<and> d' \<noteq> JNull \<and> 0 < max_retries t
      \<and> table (GetTree ref') = Reply 404 body
      \<and> fst (get_default_branch (table_server table) t) = Inr d' \<and> ref' \<noteq> d'
    \<longrightarrow> fst (get_file_list (table_server table) ref' t)
          = fst (get_file_list (table_server table) d' t))"
proof (intro conjI impI)
  assume "ref \<noteq> JNull
      \<and> simple_retry (make_request srv (GetTree ref)) s = (Inl (HTTPError 404), s1)
      \<and> get_default_branch srv s1 = (Inr d, s2) \<and> ref \<noteq> d"
  then show "get_file_list srv ref s = get_file_list srv d s2"
    by (subst get_file_list.simps) simp
next
  assume a: "ref' \<noteq> JNull \<and> d' \<noteq> JNull \<and> 0 < max_retries t
      \<and> table (GetTree ref') = Reply 404 body
      \<and> fst (get_default_branch (table_server table) t) = Inr d' \<and> ref' \<noteq> d'"
  obtain r1 t1 where sr:
    "simple_retry (make_request (table_server table) (GetTree ref')) t = (r1, t1)"
    by (metis surj_pair)
  from table_simple_retry [OF sr] a have r1: "r1 = Inl (HTTPError 404)"
    and c1: "client t1 = client t"
    by (simp_all add: table_result_def raise_for_reply_def)
  obtain q t2 where gd: "get_default_branch (table_server table) t1 = (q, t2)"
    by (metis surj_pair)
  from table_get_default_branch [OF c1, of table] gd a
  have q: "q = Inr d'"
    and c2: "client t2 = client (snd (get_default_branch (table_server table) t))"
    by simp_all
  from sr r1 gd q a
  have step: "get_file_list (table_server table) ref' t = get_file_list (table_server table) d' t2"
    by (subst get_file_list.simps) simp
  from gd q a have memo: "default_branch t2 = d'" by (auto dest: get_default_branch_memo)
  have "max_retries t2 = max_retries t1" using gd by (rule get_default_branch_max_retries)
  with c1 have tries: "max_retries t = max_retries t2" by (simp add: client_def)
  from a have dn: "d' \<noteq> JNull" and ds: "fst (get_default_branch (table_server table) t) = Inr d'"
    by simp_all
  from table_list_default [OF dn ds memo c2 [symmetric] tries] step
  show "fst (get_file_list (table_server table) ref' t)
          = fst (get_file_list (table_server table) d' t)"
    by simp
qed

lemma missing_ref_run:
  "fst (simple_retry (make_request (table_server main_only_table) (GetTree (JStr ''develop'')))
          (init_state ())) = Inl (HTTPError 404)"
  by code_simp

lemma missing_ref_default_run:
  "fst (get_default_branch (table_server main_only_table)
          (snd (simple_retry (make_request (table_server main_only_table)
                  (GetTree (JStr ''develop''))) (init_state ())))) = Inr (JStr ''main'')"
  by code_simp

lemma default_run:
  "fst (get_default_branch (table_server main_only_table) (init_state ())) = Inr (JStr ''main'')"
  by code_simp

lemma default_listing_run:
  "fst (get_file_list (table_server main_only_table) (JStr ''main'') (init_state ()))
     = Inr [JStr ''app.py'']"
  by code_simp

theorem get_file_list_falls_back_to_default_witness:
  "get_file_list (table_server main_only_table) (JStr ''develop'') (init_state ())
     = get_file_list (table_server main_only_table) (JStr ''main'')
         (snd (get_default_branch (table_server main_only_table)
            (snd (simple_retry (make_request (table_server main_only_table)
                    (GetTree (JStr ''develop''))) (init_state ())))))
   \<and> fst (get_file_list (table_server main_only_table) (JStr ''develop'') (init_state ()))
       = fst (get_file_list (table_server main_only_table) (JStr ''main'') (init_state ()))
   \<and> fst (get_file_list (table_server main_only_table) (JStr ''develop'') (init_state ()))
       = Inr [JStr ''app.py'']"
proof -
  define s1 where "s1 = snd (simple_retry (make_request (table_server main_only_table)
                    (GetTree (JStr ''develop''))) (init_state ()))"
  define s2 where "s2 = snd (get_default_branch (table_server main_only_table) s1)"
  have missing: "simple_retry (make_request (table_server main_only_table)
      (GetTree (JStr ''develop''))) (init_state ()) = (Inl (HTTPError 404), s1)"
    using missing_ref_run by (simp add: prod_eq_iff s1_def)
  have dflt: "get_default_branch (table_server main_only_table) s1 = (Inr (JStr ''main''), s2)"
    using missing_ref_default_run by (simp add: prod_eq_iff s1_def s2_def)
  note inst = get_file_list_falls_back_to_default
    [where ref = "JStr ''develop''" and srv = "table_server main_only_table"
       and s = "init_state ()" and ?s1.0 = s1 and d = "JStr ''main''" and ?s2.0 = s2
       and ref' = "JStr ''develop''" and d' = "JStr ''main''" and t = "init_state ()"
       and table = main_only_table and body = None]
  from inst [THEN conjunct1] missing dflt
  have one: "get_file_list (table_server main_only_table) (JStr ''develop'') (init_state ())
      = get_file_list (table_server main_only_table) (JStr ''main'') s2"
    by simp
  have "0 < max_retries (init_state ())" by (simp add: init_state_def)
  with inst [THEN conjunct2] default_run
  have two: "fst (get_file_list (table_server main_only_table) (JStr ''develop'') (init_state ()))
      = fst (get_file_list (table_server main_only_table) (JStr ''main'') (init_state ()))"
    by simp
  from one two default_listing_run show ?thesis by (simp add: s1_def s2_def)
qed


section \<open>Properties of branch creation\<close>

text \<open>
  Claim C6 as the specification words it fails: the user confirms the deletion of the
  existing branch \<open>feature/pipeops\<close>, the branch is to be created from \<open>develop\<close>, which
  the host does not know, and the method succeeds with the branch at the commit of the
  default branch \<open>main\<close>.
\<close>

theorem create_branch_fallback_counterexample:
  "fst (create_branch gitlab_server ''feature/pipeops'' (JStr ''develop'')
          (answering [''1''] (init_state two_branches))) = Inr True
   \<and> deletions (trace (snd (create_branch gitlab_server ''feature/pipeops'' (JStr ''develop'')
          (answering [''1''] (init_state two_branches))))) = [''feature/pipeops'']
   \<and> heads (remote (snd (create_branch gitlab_server ''feature/pipeops'' (JStr ''develop'')
          (answering [''1''] (init_state two_branches)))))
       = [(''feature/pipeops'', 1), (''main'', 1)]
   \<and> map_of (heads two_branches) ''develop'' = None
   \<and> map_of (heads two_branches) ''main'' = Some 1"
  by code_simp

text \<open>The calls of \<^verbatim>\<open>create_branch\<close> on the host with the branch table.\<close>

lemma gl_branch_exists_yes:
  assumes "0 < max_retries s" and "map_of (heads (remote s)) b = Some c"
  shows "\<exists>s'. branch_exists gitlab_server b s = (True, s')
           \<and> remote s' = remote s \<and> same_client s s'"
proof -
  have "gitlab_server (GetBranch b) (remote s)
      = ((Reply 200 (Some (branch_document b c)), 1), remote s)"
    using assms(2) by simp
  from retry_first_attempt_client [where srv = gitlab_server and req = "GetBranch b" and s = s,
      OF assms(1) this] show ?thesis
    by (auto simp: branch_exists_def raise_for_reply_def)
qed

lemma gl_branch_exists_no:
  assumes "0 < max_retries s" and "map_of (heads (remote s)) b = None"
  shows "\<exists>s'. branch_exists gitlab_server b s = (False, s')
           \<and> remote s' = remote s \<and> same_client s s'"
proof -
  have "gitlab_server (GetBranch b) (remote s) = ((Reply 404 None, 1), remote s)"
    using assms(2) by simp
  from retry_all_fail [where srv = gitlab_server and req = "GetBranch b" and s = s,
      OF assms(1) this, of "HTTPError 404"] show ?thesis
    by (auto simp: branch_exists_def raise_for_reply_def)
qed

lemma gl_get_branch_info:
  assumes "0 < max_retries s" and "map_of (heads (remote s)) b = Some c"
  shows "\<exists>s'. get_branch_info gitlab_server b s = (branch_document b c, s')
           \<and> remote s' = remote s \<and> same_client s s'"
proof -
  have "gitlab_server (GetBranch b) (remote s)
      = ((Reply 200 (Some (branch_document b c)), 1), remote s)"
    using assms(2) by simp
  from retry_first_attempt_client [where srv = gitlab_server and req = "GetBranch b" and s = s,
      OF assms(1) this] show ?thesis
    by (auto simp: get_branch_info_def raise_for_reply_def response_json_def)
qed

lemma gl_delete_branch_done:
  assumes "0 < max_retries s" and "map_of (heads (remote s)) b = Some c"
    and "b \<notin> set (locked (remote s))"
  shows "\<exists>s'. delete_branch gitlab_server b s = (True, s')
           \<and> remote s' = (remote s)\<lparr>heads := filter (\<lambda>(n, c). n \<noteq> b) (heads (remote s))\<rparr>
           \<and> same_client s s'"
proof -
  have "gitlab_server (DeleteBranch b) (remote s)
      = ((Reply 204 None, 1),
         (remote s)\<lparr>heads := filter (\<lambda>(n, c). n \<noteq> b) (heads (remote s))\<rparr>)"
    using assms(2,3) by simp
  from retry_first_attempt_client [where srv = gitlab_server and req = "DeleteBranch b" and s = s,
      OF assms(1) this] show ?thesis
    by (auto simp: delete_branch_def raise_for_reply_def)
qed

lemma gl_delete_branch_refused:
  assumes "0 < max_retries s" and "map_of (heads (remote s)) b = Some c"
    and "b \<in> set (locked (remote s))"
  shows "\<exists>s'. delete_branch gitlab_server b s = (False, s')
           \<and> remote s' = remote s \<and> same_client s s'"
proof -
  have "gitlab_server (DeleteBranch b) (remote s) = ((Reply 403 None, 1), remote s)"
    using assms(2,3) by simp
  from retry_all_fail [where srv = gitlab_server and req = "DeleteBranch b" and s = s,
      OF assms(1) this, of "HTTPError 403"] show ?thesis
    by (auto simp: delete_branch_def raise_for_reply_def)
qed

lemma gl_post_branch_done:
  assumes "0 < max_retries s" and "map_of (heads (remote s)) b = None"
    and "map_of (heads (remote s)) r = Some c"
  shows "\<exists>s'. simple_retry (make_request gitlab_server (PostBranch b (JStr r))) s
             = (Inr (Some (branch_document b c)), s')
           \<and> remote s' = (remote s)\<lparr>heads := (b, c) # heads (remote s)\<rparr>
           \<and> same_client s s'"
proof -
  have "gitlab_server (PostBranch b (JStr r)) (remote s)
      = ((Reply 201 (Some (branch_document b c)), 1),
         (remote s)\<lparr>heads := (b, c) # heads (remote s)\<rparr>)"
    using assms(2,3) by simp
  from retry_first_attempt_client [where srv = gitlab_server and req = "PostBranch b (JStr r)" and s = s,
      OF assms(1) this] show ?thesis
    by (auto simp: raise_for_reply_def)
qed

lemma gl_post_branch_refused:
  assumes "0 < max_retries s" and "map_of (heads (remote s)) b = None"
    and "map_of (heads (remote s)) r = None"
  shows "\<exists>s'. simple_retry (make_request gitlab_server (PostBranch b (JStr r))) s
             = (Inl (HTTPError 400), s')
           \<and> remote s' = remote s \<and> same_client s s'"
proof -
  have "gitlab_server (PostBranch b (JStr r)) (remote s) = ((Reply 400 None, 1), remote s)"
    using assms(2,3) by simp
  from retry_all_fail [where srv = gitlab_server and req = "PostBranch b (JStr r)" and s = s,
      OF assms(1) this, of "HTTPError 400"] show ?thesis
    by (auto simp: raise_for_reply_def)
qed

lemma gl_get_default_branch:
  assumes "0 < max_retries s"
    and "project_info s = JNull \<and> default_branch s = JNull
         \<or> cached_default s = Some (JStr (default_name (remote s)))"
  shows "\<exists>s'. get_default_branch gitlab_server s = (Inr (JStr (default_name (remote s))), s')
           \<and> remote s' = remote s \<and> max_retries s' = max_retries s \<and> stdin s' = stdin s
           \<and> cached_default s' = Some (JStr (default_name (remote s)))"
proof (cases "cached_default s = Some (JStr (default_name (remote s)))")
  case True
  from get_default_branch_stable [OF this, of gitlab_server] show ?thesis by auto
next
  case False
  with assms(2) have fresh: "project_info s = JNull" "default_branch s = JNull" by auto
  have "gitlab_server GetProject (remote s)
      = ((Reply 200 (Some (JObj [(''default_branch'', JStr (default_name (remote s)))])), 1),
         remote s)"
    by simp
  from retry_first_attempt_client [where srv = gitlab_server and req = GetProject and s = s,
      OF assms(1) this]
  obtain s1 where s1: "simple_retry (make_request gitlab_server GetProject) s
        = (Inr (Some (JObj [(''default_branch'', JStr (default_name (remote s)))])), s1)"
      "remote s1 = remote s" "same_client s s1"
    by (auto simp: raise_for_reply_def)
  then have "get_project gitlab_server s
      = (JObj [(''default_branch'', JStr (default_name (remote s)))],
         s1\<lparr>project_info := JObj [(''default_branch'', JStr (default_name (remote s)))]\<rparr>)"
    using fresh by (simp add: get_project_def response_json_def)
  then show ?thesis
    using fresh s1(2,3)
    by (simp add: get_default_branch_def cached_default_def same_client_def)
qed

lemma show_branch_document: "show_branch_info (branch_document b c) = Inr ()"
  by (simp add: show_branch_info_def branch_document_def ebind_def)

lemma truthy_branch_document: "truthy (branch_document b c)"
  by (simp add: branch_document_def)

lemma gl_resolve_existing_confirmed:
  assumes tries: "0 < max_retries s" and there: "map_of (heads (remote s)) b = Some c"
    and line: "stdin s = line # rest" and yes: "strip line = ''1'' \<or> strip line = []"
  shows "\<exists>s'. resolve_existing gitlab_server b s
             = (Inr (b \<notin> set (locked (remote s))), s')
           \<and> remote s' =
               (if b \<in> set (locked (remote s)) then remote s
                else (remote s)\<lparr>heads := filter (\<lambda>(n, c). n \<noteq> b) (heads (remote s))\<rparr>)
           \<and> max_retries s' = max_retries s \<and> project_info s' = project_info s
           \<and> default_branch s' = default_branch s \<and> stdin s' = rest"
proof -
  from gl_branch_exists_yes [OF tries there] obtain s1 where
    s1: "branch_exists gitlab_server b s = (True, s1)" "remote s1 = remote s" "same_client s s1"
    by blast
  from s1(2,3) tries there have t1: "0 < max_retries s1" "map_of (heads (remote s1)) b = Some c"
    by (simp_all add: same_client_def)
  from gl_get_branch_info [OF t1] obtain s2 where
    s2: "get_branch_info gitlab_server b s1 = (branch_document b c, s2)"
      "remote s2 = remote s1" "same_client s1 s2"
    by blast
  define s3 where "s3 = s2\<lparr>stdin := rest\<rparr>"
  from s1(3) s2(3) line have inp: "input s2 = (Inr line, s3)"
    by (simp add: input_def same_client_def s3_def)
  have t3: "0 < max_retries s3" "map_of (heads (remote s3)) b = Some c"
    using t1 s2(2,3) by (simp_all add: s3_def same_client_def)
  have r3: "remote s3 = remote s" using s1(2) s2(2) by (simp add: s3_def)
  have c3: "max_retries s3 = max_retries s" "project_info s3 = project_info s"
    "default_branch s3 = default_branch s" "stdin s3 = rest"
    using s1(3) s2(3) by (simp_all add: s3_def same_client_def)
  have loop: "choice_loop gitlab_server b s2
      = (case delete_branch gitlab_server b s3 of
           (True, s'') \<Rightarrow> (Inr True, s'') | (False, s'') \<Rightarrow> (Inr False, s''))"
    using inp yes by (subst choice_loop.simps) (simp add: Let_def)
  have res: "resolve_existing gitlab_server b s = choice_loop gitlab_server b s2"
    using s1(1) s2(1) by (simp add: resolve_existing_def truthy_branch_document show_branch_document)
  show ?thesis
  proof (cases "b \<in> set (locked (remote s))")
    case True
    with r3 have "b \<in> set (locked (remote s3))" by simp
    from gl_delete_branch_refused [OF t3 this] obtain s4 where
      "delete_branch gitlab_server b s3 = (False, s4)" "remote s4 = remote s3" "same_client s3 s4"
      by blast
    with res loop True r3 c3 show ?thesis by (simp add: same_client_def)
  next
    case False
    with r3 have "b \<notin> set (locked (remote s3))" by simp
    from gl_delete_branch_done [OF t3 this] obtain s4 where
      "delete_branch gitlab_server b s3 = (True, s4)"
      "remote s4 = (remote s3)\<lparr>heads := filter (\<lambda>(n, c). n \<noteq> b) (heads (remote s3))\<rparr>"
      "same_client s3 s4"
      by blast
    with res loop False r3 c3 show ?thesis by (simp add: same_client_def)
  qed
qed

lemma gl_resolve_existing_absent:
  assumes "0 < max_retries s" and "map_of (heads (remote s)) b = None"
  shows "\<exists>s'. resolve_existing gitlab_server b s = (Inr True, s')
           \<and> remote s' = remote s \<and> same_client s s'"
proof -
  from gl_branch_exists_no [OF assms] obtain s1 where
    "branch_exists gitlab_server b s = (False, s1)" "remote s1 = remote s" "same_client s s1"
    by blast
  then show ?thesis by (simp add: resolve_existing_def)
qed

lemma map_of_filter_other:
  "map_of (filter (\<lambda>(n, c). n \<noteq> b) xs) b = None"
  by (induction xs) auto

lemma map_of_filter_keep:
  "r \<noteq> b \<Longrightarrow> map_of (filter (\<lambda>(n, c). n \<noteq> b) xs) r = map_of xs r"
  by (induction xs) auto

lemma same_client_cached_default:
  "same_client s s' \<Longrightarrow> cached_default s' = cached_default s"
  by (simp add: same_client_def cached_default_def)

text \<open>The second round of \<^verbatim>\<open>create_branch\<close>, started with the default branch as ref.\<close>

lemma gl_create_branch_from_default:
  assumes tries: "0 < max_retries s"
    and settled: "cached_default s = Some (JStr dn)"
    and absent: "map_of (heads (remote s)) b = None"
    and ok: "create_branch gitlab_server b (JStr dn) s = (Inr True, s')"
  shows "\<exists>c. map_of (heads (remote s)) dn = Some c
           \<and> remote s' = (remote s)\<lparr>heads := (b, c) # heads (remote s)\<rparr>"
proof -
  from gl_resolve_existing_absent [OF tries absent] obtain s1 where
    s1: "resolve_existing gitlab_server b s = (Inr True, s1)" "remote s1 = remote s"
      "same_client s s1"
    by blast
  from s1(2,3) tries absent have t1: "0 < max_retries s1" "map_of (heads (remote s1)) b = None"
    by (simp_all add: same_client_def)
  show ?thesis
  proof (cases "map_of (heads (remote s)) dn")
    case (Some c)
    with s1(2) have "map_of (heads (remote s1)) dn = Some c" by simp
    from gl_post_branch_done [OF t1 this] obtain s2 where
      "simple_retry (make_request gitlab_server (PostBranch b (JStr dn))) s1
         = (Inr (Some (branch_document b c)), s2)"
      "remote s2 = (remote s1)\<lparr>heads := (b, c) # heads (remote s1)\<rparr>"
      by blast
    with s1(1) have "create_branch gitlab_server b (JStr dn) s = (Inr True, s2)"
      by (subst create_branch.simps) simp
    with ok \<open>remote s2 = (remote s1)\<lparr>heads := (b, c) # heads (remote s1)\<rparr>\<close> s1(2) Some
    show ?thesis by simp
  next
    case None
    with s1(2) have "map_of (heads (remote s1)) dn = None" by simp
    from gl_post_branch_refused [OF t1 this] obtain s2 where
      s2: "simple_retry (make_request gitlab_server (PostBranch b (JStr dn))) s1
         = (Inl (HTTPError 400), s2)" "same_client s1 s2"
      by blast
    from settled s1(3) s2(2) have "cached_default s2 = Some (JStr dn)"
      by (simp add: same_client_cached_default)
    from get_default_branch_stable [OF this, of gitlab_server] obtain s3 where
      "get_default_branch gitlab_server s2 = (Inr (JStr dn), s3)" by blast
    with s1(1) s2(1) have "create_branch gitlab_server b (JStr dn) s = (Inr False, s3)"
      by (subst create_branch.simps) simp
    with ok show ?thesis by simp
  qed
qed

lemma gl_create_branch_recreate:
  assumes tries: "0 < max_retries s"
    and memo: "project_info s = JNull \<and> default_branch s = JNull
               \<or> cached_default s = Some (JStr (default_name (remote s)))"
    and there: "map_of (heads (remote s)) b = Some old"
    and line: "stdin s = line # rest" and yes: "strip line = ''1'' \<or> strip line = []"
    and ok: "create_branch gitlab_server b (JStr r) s = (Inr True, s')"
  shows "\<exists>c. heads (remote s') = (b, c) # filter (\<lambda>(n, c). n \<noteq> b) (heads (remote s))
           \<and> (r \<noteq> b \<and> map_of (heads (remote s)) r = Some c
              \<or> (r = b \<or> map_of (heads (remote s)) r = None)
                 \<and> r \<noteq> default_name (remote s) \<and> default_name (remote s) \<noteq> b
                 \<and> map_of (heads (remote s)) (default_name (remote s)) = Some c)"
proof -
  define H where "H = filter (\<lambda>(n, c). n \<noteq> b) (heads (remote s))"
  define dn where "dn = default_name (remote s)"
  from gl_resolve_existing_confirmed [OF tries there line yes] obtain s1 where
    s1: "resolve_existing gitlab_server b s = (Inr (b \<notin> set (locked (remote s))), s1)"
      "remote s1 =
         (if b \<in> set (locked (remote s)) then remote s else (remote s)\<lparr>heads := H\<rparr>)"
      "max_retries s1 = max_retries s" "project_info s1 = project_info s"
      "default_branch s1 = default_branch s"
    unfolding H_def by blast
  have unlocked: "b \<notin> set (locked (remote s))"
  proof
    assume "b \<in> set (locked (remote s))"
    with s1(1) have "create_branch gitlab_server b (JStr r) s = (Inr False, s1)"
      by (subst create_branch.simps) simp
    with ok show False by simp
  qed
  with s1 have res: "resolve_existing gitlab_server b s = (Inr True, s1)"
    and r1: "remote s1 = (remote s)\<lparr>heads := H\<rparr>" by simp_all
  have t1: "0 < max_retries s1" "map_of (heads (remote s1)) b = None"
    using tries s1(3) r1 by (simp_all add: H_def map_of_filter_other)
  show ?thesis
  proof (cases "map_of H r")
    case (Some c)
    then have rb: "r \<noteq> b" by (auto simp: H_def map_of_filter_other)
    with Some have orig: "map_of (heads (remote s)) r = Some c"
      by (simp add: H_def map_of_filter_keep)
    from Some r1 have "map_of (heads (remote s1)) r = Some c" by simp
    from gl_post_branch_done [OF t1 this] obtain s2 where
      "simple_retry (make_request gitlab_server (PostBranch b (JStr r))) s1
         = (Inr (Some (branch_document b c)), s2)"
      "remote s2 = (remote s1)\<lparr>heads := (b, c) # heads (remote s1)\<rparr>"
      by blast
    with res have "create_branch gitlab_server b (JStr r) s = (Inr True, s2)"
      by (subst create_branch.simps) simp
    with ok \<open>remote s2 = (remote s1)\<lparr>heads := (b, c) # heads (remote s1)\<rparr>\<close> r1 rb orig
    show ?thesis by (auto simp: H_def)
  next
    case None
    then have gone: "r = b \<or> map_of (heads (remote s)) r = None"
      by (cases "r = b") (simp_all add: H_def map_of_filter_keep)
    from None r1 have "map_of (heads (remote s1)) r = None" by simp
    from gl_post_branch_refused [OF t1 this] obtain s2 where
      s2: "simple_retry (make_request gitlab_server (PostBranch b (JStr r))) s1
         = (Inl (HTTPError 400), s2)" "remote s2 = remote s1" "same_client s1 s2"
      by blast
    have t2: "0 < max_retries s2" using t1(1) s2(3) by (simp add: same_client_def)
    have memo2: "project_info s2 = JNull \<and> default_branch s2 = JNull
               \<or> cached_default s2 = Some (JStr (default_name (remote s2)))"
    proof -
      have "project_info s2 = project_info s" "default_branch s2 = default_branch s"
        using s1(4,5) s2(3) by (simp_all add: same_client_def)
      moreover from this have "cached_default s2 = cached_default s"
        by (simp add: cached_default_def)
      moreover have "default_name (remote s2) = default_name (remote s)"
        using s2(2) r1 by simp
      ultimately show ?thesis using memo by auto
    qed
    from gl_get_default_branch [OF t2 memo2] obtain s3 where
      s3: "get_default_branch gitlab_server s2 = (Inr (JStr dn), s3)"
        "remote s3 = remote s2" "max_retries s3 = max_retries s2"
        "cached_default s3 = Some (JStr dn)"
      using s2(2) r1 by (auto simp: dn_def)
    have other: "r \<noteq> dn"
    proof
      assume "r = dn"
      with res s2(1) s3(1) have "create_branch gitlab_server b (JStr r) s = (Inr False, s3)"
        by (subst create_branch.simps) simp
      with ok show False by simp
    qed
    with res s2(1) s3(1)
    have "create_branch gitlab_server b (JStr r) s = create_branch gitlab_server b (JStr dn) s3"
      by (subst create_branch.simps) simp
    with ok have again: "create_branch gitlab_server b (JStr dn) s3 = (Inr True, s')" by simp
    have t3: "0 < max_retries s3" "map_of (heads (remote s3)) b = None"
      using t2 s3(2,3) s2(2) t1(2) by simp_all
    from gl_create_branch_from_default [OF t3(1) s3(4) t3(2) again] obtain c where
      c: "map_of (heads (remote s3)) dn = Some c"
        "remote s' = (remote s3)\<lparr>heads := (b, c) # heads (remote s3)\<rparr>"
      by blast
    from c(1) s3(2) s2(2) r1 have cH: "map_of H dn = Some c" by simp
    then have db: "dn \<noteq> b" by (auto simp: H_def map_of_filter_other)
    with cH have "map_of (heads (remote s)) dn = Some c"
      by (simp add: H_def map_of_filter_keep)
    moreover from c(2) s3(2) s2(2) r1 have "heads (remote s') = (b, c) # H" by simp
    ultimately show ?thesis using gone other db by (auto simp: H_def dn_def)
  qed
qed

text \<open>What the calls before the creation leave in the log, on any host.\<close>

lemma creations_append: "creations b (xs @ ys) = creations b xs @ creations b ys"
  by (induction b xs rule: creations.induct) auto

lemma deleted_append: "deleted b (xs @ ys) \<longleftrightarrow> deleted b xs \<or> deleted b ys"
  by (induction b xs rule: deleted.induct) auto

lemma creations_Sent_other:
  "(\<And>ref. req \<noteq> PostBranch b ref) \<Longrightarrow> creations b (Sent req rep # evs) = creations b evs"
  by (cases req) auto

lemma creations_backoff_trace:
  "(\<And>ref. req \<noteq> PostBranch b ref) \<Longrightarrow> creations b (backoff_trace i req reps) = []"
  by (induction i req reps rule: backoff_trace.induct) (simp_all add: creations_Sent_other)

lemma deleted_backoff_trace:
  "reps \<noteq> [] \<Longrightarrow> raise_for_reply (last reps) = Inr body \<Longrightarrow>
   deleted b (backoff_trace i (DeleteBranch b) reps)"
  by (induction i "DeleteBranch b" reps rule: backoff_trace.induct) auto

lemma simple_retry_log:
  assumes "simple_retry (make_request srv req) s = (r, s')"
  shows "\<exists>reps. trace s' = trace s @ backoff_trace 0 req reps
           \<and> (\<forall>body. r = Inr body \<longrightarrow> reps \<noteq> [] \<and> raise_for_reply (last reps) = Inr body)"
proof -
  from assms
  have "retry_loop [0 ..< nat (max_retries s)] None (make_request srv req) s = (r, s')"
    by (simp add: simple_retry_def)
  from retry_loop_trace [OF this refl] obtain reps where
    reps: "trace s' = trace s @ backoff_trace 0 req reps"
      "reps = [] \<longrightarrow> r = Inl TypeError"
      "reps \<noteq> [] \<longrightarrow> r = raise_for_reply (last reps)"
    by auto
  then show ?thesis by (intro exI [of _ reps]) auto
qed

lemma branch_exists_log:
  assumes "branch_exists srv b s = (q, s')"
  shows "\<exists>evs. trace s' = trace s @ evs \<and> creations b evs = []"
proof -
  obtain r1 s1 where sr: "simple_retry (make_request srv (GetBranch b)) s = (r1, s1)"
    by (metis surj_pair)
  from simple_retry_log [OF sr] obtain reps where
    "trace s1 = trace s @ backoff_trace 0 (GetBranch b) reps" by blast
  moreover from assms sr have "s' = s1"
    by (auto simp: branch_exists_def split: sum.splits exn.splits if_splits)
  ultimately show ?thesis by (auto simp: creations_backoff_trace)
qed

lemma get_branch_info_log:
  assumes "get_branch_info srv b s = (q, s')"
  shows "\<exists>evs. trace s' = trace s @ evs \<and> creations b evs = []"
proof -
  obtain r1 s1 where sr: "simple_retry (make_request srv (GetBranch b)) s = (r1, s1)"
    by (metis surj_pair)
  from simple_retry_log [OF sr] obtain reps where
    "trace s1 = trace s @ backoff_trace 0 (GetBranch b) reps" by blast
  moreover from assms sr have "s' = s1"
    by (auto simp: get_branch_info_def split: sum.splits)
  ultimately show ?thesis by (auto simp: creations_backoff_trace)
qed

lemma delete_branch_log:
  assumes "delete_branch srv b s = (q, s')"
  shows "\<exists>evs. trace s' = trace s @ evs \<and> creations b evs = [] \<and> (q \<longrightarrow> deleted b evs)"
proof -
  obtain r1 s1 where sr: "simple_retry (make_request srv (DeleteBranch b)) s = (r1, s1)"
    by (metis surj_pair)
  from simple_retry_log [OF sr] obtain reps where
    reps: "trace s1 = trace s @ backoff_trace 0 (DeleteBranch b) reps"
      "\<forall>body. r1 = Inr body \<longrightarrow> reps \<noteq> [] \<and> raise_for_reply (last reps) = Inr body"
    by blast
  from assms sr have st: "s' = s1" and q: "q \<longrightarrow> (\<exists>body. r1 = Inr body)"
    by (auto simp: delete_branch_def split: sum.splits)
  from q reps(2) have "q \<longrightarrow> deleted b (backoff_trace 0 (DeleteBranch b) reps)"
    by (auto intro: deleted_backoff_trace)
  with reps(1) st show ?thesis by (auto simp: creations_backoff_trace)
qed

lemma choice_loop_log:
  "choice_loop srv b s = (q, s') \<Longrightarrow>
   \<exists>evs. trace s' = trace s @ evs \<and> creations b evs = [] \<and> (q = Inr True \<longrightarrow> deleted b evs)"
proof (induction srv b s rule: choice_loop.induct)
  case (1 srv b s)
  obtain r1 s1 where i: "input s = (r1, s1)" by (metis surj_pair)
  then have tr: "trace s1 = trace s" by (auto simp: input_def split: list.splits)
  show ?case
  proof (cases r1)
    case (Inl e)
    with "1.prems" i tr show ?thesis by (subst (asm) choice_loop.simps) auto
  next
    case (Inr line)
    consider (del) "strip line = ''1'' \<or> strip line = []"
      | (stop) "\<not> (strip line = ''1'' \<or> strip line = [])" "strip line = ''2''"
      | (again) "\<not> (strip line = ''1'' \<or> strip line = [])" "strip line \<noteq> ''2''"
      by blast
    then show ?thesis
    proof cases
      case del
      obtain r2 s2 where d: "delete_branch srv b s1 = (r2, s2)" by (metis surj_pair)
      from "1.prems" i Inr del d have "s' = s2" "q = Inr r2"
        by (subst (asm) choice_loop.simps; auto simp: Let_def split: bool.splits)+
      with delete_branch_log [OF d] tr show ?thesis by auto
    next
      case stop
      with "1.prems" i Inr have "s' = s1" "q = Inr False"
        by (subst (asm) choice_loop.simps; auto simp: Let_def)+
      with tr show ?thesis by simp
    next
      case again
      with "1.prems" i Inr have "choice_loop srv b s1 = (q, s')"
        by (subst (asm) choice_loop.simps) (auto simp: Let_def)
      from "1.IH" [OF i [symmetric] Inr refl _ _ this] again tr show ?thesis by auto
    qed
  qed
qed

lemma resolve_existing_log:
  assumes "resolve_existing srv b s = (q, s')"
  shows "\<exists>evs. trace s' = trace s @ evs \<and> creations b evs = []
           \<and> (fst (branch_exists srv b s) \<and> q = Inr True \<longrightarrow> deleted b evs)"
proof -
  obtain e1 s1 where be: "branch_exists srv b s = (e1, s1)" by (metis surj_pair)
  from branch_exists_log [OF be] obtain ev1 where
    ev1: "trace s1 = trace s @ ev1" "creations b ev1 = []" by blast
  show ?thesis
  proof (cases e1)
    case False
    with assms be ev1 show ?thesis by (auto simp: resolve_existing_def)
  next
    case True
    obtain info s2 where gi: "get_branch_info srv b s1 = (info, s2)" by (metis surj_pair)
    from get_branch_info_log [OF gi] obtain ev2 where
      ev2: "trace s2 = trace s1 @ ev2" "creations b ev2 = []" by blast
    show ?thesis
    proof (cases "truthy info")
      case t: True
      show ?thesis
      proof (cases "show_branch_info info")
        case (Inl e)
        with assms be True gi t have "s' = s2" "q = Inl e" by (simp_all add: resolve_existing_def)
        with ev1 ev2 show ?thesis by (auto simp: creations_append)
      next
        case (Inr u)
        with assms be True gi t have "choice_loop srv b s2 = (q, s')"
          by (simp add: resolve_existing_def)
        from choice_loop_log [OF this] obtain ev3 where
          "trace s' = trace s2 @ ev3" "creations b ev3 = []" "q = Inr True \<longrightarrow> deleted b ev3"
          by blast
        with ev1 ev2 show ?thesis
          by (intro exI [of _ "ev1 @ ev2 @ ev3"]) (auto simp: creations_append deleted_append)
      qed
    next
      case f: False
      obtain r3 s3 where i: "input s2 = (r3, s3)" by (metis surj_pair)
      then have tr3: "trace s3 = trace s2" by (auto simp: input_def split: list.splits)
      show ?thesis
      proof (cases r3)
        case (Inl e)
        with assms be True gi f i have "s' = s3" "q = Inl e" by (simp_all add: resolve_existing_def)
        with ev1 ev2 tr3 show ?thesis by (auto simp: creations_append)
      next
        case (Inr line)
        show ?thesis
        proof (cases "lower (strip line) = ''y'' \<or> lower (strip line) = ''yes''")
          case no: False
          with assms be True gi f i Inr have "s' = s3" "q = Inr False"
            by (simp_all add: resolve_existing_def Let_def)
          with ev1 ev2 tr3 show ?thesis by (auto simp: creations_append)
        next
          case yes: True
          obtain r4 s4 where d: "delete_branch srv b s3 = (r4, s4)" by (metis surj_pair)
          from delete_branch_log [OF d] obtain ev4 where
            ev4: "trace s4 = trace s3 @ ev4" "creations b ev4 = []" "r4 \<longrightarrow> deleted b ev4"
            by blast
          from assms be True gi f i Inr yes d have "s' = s4" "q = Inr r4"
            by (auto simp: resolve_existing_def Let_def split: bool.splits)
          with ev1 ev2 tr3 ev4 show ?thesis
            by (intro exI [of _ "ev1 @ ev2 @ ev4"]) (auto simp: creations_append deleted_append)
        qed
      qed
    qed
  qed
qed

lemma create_branch_extends_trace:
  "create_branch srv b ref0 s = (res, s') \<Longrightarrow> \<exists>evs. trace s' = trace s @ evs"
proof (induction "fallback_pending ref0 s" arbitrary: ref0 s res s' rule: less_induct)
  case less
  obtain q0 s0 where first:
    "(if ref0 = JNull then get_default_branch srv s else (Inr ref0, s)) = (q0, s0)"
    by (metis surj_pair)
  have e0: "\<exists>evs. trace s0 = trace s @ evs"
  proof (cases "ref0 = JNull")
    case True
    with first show ?thesis by (auto dest: get_default_branch_extends_trace)
  next
    case False
    with first show ?thesis by simp
  qed
  show ?case
  proof (cases q0)
    case (Inl e)
    with less.prems first have "s' = s0" by (subst (asm) create_branch.simps) simp
    with e0 show ?thesis by simp
  next
    case ref: (Inr ref)
    obtain q1 s1 where res1: "resolve_existing srv b s0 = (q1, s1)" by (metis surj_pair)
    from resolve_existing_log [OF res1] e0 have e1: "\<exists>evs. trace s1 = trace s @ evs" by auto
    show ?thesis
    proof (cases "q1 = Inr True")
      case False
      with less.prems first ref res1 have "s' = s1"
        by (subst (asm) create_branch.simps) (auto split: sum.splits bool.splits)
      with e1 show ?thesis by simp
    next
      case go: True
      obtain q2 s2 where post: "simple_retry (make_request srv (PostBranch b ref)) s1 = (q2, s2)"
        by (metis surj_pair)
      from simple_retry_extends_trace [OF post] e1 have e2: "\<exists>evs. trace s2 = trace s @ evs"
        by auto
      show ?thesis
      proof (cases "q2 = Inl (HTTPError 400)")
        case False
        with less.prems first ref res1 go post have "s' = s2"
          by (subst (asm) create_branch.simps) (auto split: sum.splits exn.splits if_splits)
        with e2 show ?thesis by simp
      next
        case bad: True
        obtain q3 s3 where gd: "get_default_branch srv s2 = (q3, s3)" by (metis surj_pair)
        from get_default_branch_extends_trace [OF gd] e2
        have e3: "\<exists>evs. trace s3 = trace s @ evs" by auto
        show ?thesis
        proof (cases q3)
          case (Inl e)
          with less.prems first ref res1 go post bad gd have "s' = s3"
            by (subst (asm) create_branch.simps) simp
          with e3 show ?thesis by simp
        next
          case d: (Inr d)
          show ?thesis
          proof (cases "ref = d")
            case True
            with less.prems first ref res1 go post bad gd d have "s' = s3"
              by (subst (asm) create_branch.simps) simp
            with e3 show ?thesis by simp
          next
            case False
            with less.prems first ref res1 go post bad gd d
            have again: "create_branch srv b d s3 = (res, s')"
              by (subst (asm) create_branch.simps) simp
            have keep: "cached_default s2 = cached_default s0"
              using resolve_existing_cached_default [OF res1]
                simple_retry_cached_default [OF post] by simp
            from first ref have first': "(if ref0 = JNull then get_default_branch srv s
                else (Inr ref0, s)) = (Inr ref, s0)" by simp
            from gd d have gd': "get_default_branch srv s2 = (Inr d, s3)" by simp
            from fallback_decreases [OF first' keep gd' False]
            have "fallback_pending d s3 < fallback_pending ref0 s" .
            from less.hyps [OF this again] e3 show ?thesis by auto
          qed
        qed
      qed
    qed
  qed
qed

lemma create_branch_after_resolve:
  assumes "ref \<noteq> JNull" and "resolve_existing srv b s = (Inr True, s1)"
    and "create_branch srv b ref s = (res, s')"
  shows "\<exists>post. trace s' = trace s1 @ post"
proof -
  obtain q2 s2 where post: "simple_retry (make_request srv (PostBranch b ref)) s1 = (q2, s2)"
    by (metis surj_pair)
  from simple_retry_extends_trace [OF post] obtain ev2 where e2: "trace s2 = trace s1 @ ev2" ..
  show ?thesis
  proof (cases "q2 = Inl (HTTPError 400)")
    case False
    with assms post have "s' = s2"
      by (subst (asm) create_branch.simps) (auto split: sum.splits exn.splits if_splits)
    with e2 show ?thesis by simp
  next
    case bad: True
    obtain q3 s3 where gd: "get_default_branch srv s2 = (q3, s3)" by (metis surj_pair)
    from get_default_branch_extends_trace [OF gd] e2
    have e3: "\<exists>evs. trace s3 = trace s1 @ evs" by auto
    show ?thesis
    proof (cases q3)
      case (Inl e)
      with assms post bad gd have "s' = s3" by (subst (asm) create_branch.simps) simp
      with e3 show ?thesis by simp
    next
      case d: (Inr d)
      show ?thesis
      proof (cases "ref = d")
        case True
        with assms post bad gd d have "s' = s3" by (subst (asm) create_branch.simps) simp
        with e3 show ?thesis by simp
      next
        case False
        with assms post bad gd d have "create_branch srv b d s3 = (res, s')"
          by (subst (asm) create_branch.simps) simp
        from create_branch_extends_trace [OF this] e3 show ?thesis by auto
      qed
    qed
  qed
qed

lemma count_recreated:
  "length (filter (\<lambda>(n, c). n = b) ((b, c) # filter (\<lambda>(n, c). n \<noteq> b) xs)) = 1"
  by (induction xs) auto

text \<open>
  Claim C6, as the code has it. First part, on the host with the branch table: when the
  branch is there, the user confirms the deletion and \<^verbatim>\<open>create_branch\<close> returns
  \<^verbatim>\<open>True\<close>, the table holds the other branches as before and exactly one branch of that
  name, which points where the requested ref pointed or, when the host does not know that
  ref once the old branch is gone and the ref is not the default branch, where the default
  branch points. Second part, on any host: for a given ref and a branch that the existence
  check finds, the log of the run splits into the calls up to the deletion, none of which is
  a creation, and the calls after it; a creation is sent only when a deletion was answered
  without error before, and when none was, nothing is sent after and the result is not
  \<^verbatim>\<open>True\<close>.
\<close>

theorem create_branch_delete_and_recreate:
  "(0 < max_retries s
      \<and> (project_info s = JNull \<and> default_branch s = JNull
          \<or> cached_default s = Some (JStr (default_name (remote s))))
      \<and> map_of (heads (remote s)) b = Some old
      \<and> stdin s = line # rest \<and> (strip line = ''1'' \<or> strip line = [])
      \<and> create_branch gitlab_server b (JStr r) s = (Inr True, s')
    \<longrightarrow> (\<exists>c. heads (remote s') = (b, c) # filter (\<lambda>(n, c). n \<noteq> b) (heads (remote s))
           \<and> length (filter (\<lambda>(n, c). n = b) (heads (remote s'))) = 1
           \<and> (r \<noteq> b \<and> map_of (heads (remote s)) r = Some c
              \<or> (r = b \<or> map_of (heads (remote s)) r = None)
                 \<and> r \<noteq> default_name (remote s) \<and> default_name (remote s) \<noteq> b
                 \<and> map_of (heads (remote s)) (default_name (remote s)) = Some c)))
   \<and> (ref \<noteq> JNull \<and> fst (branch_exists srv b t) \<and> create_branch srv b ref t = (res, t')
    \<longrightarrow> (\<exists>pre post. trace t' = trace t @ pre @ post
           \<and> creations b pre = []
           \<and> (creations b post \<noteq> [] \<longrightarrow> deleted b pre)
           \<and> (\<not> deleted b pre \<longrightarrow> post = [] \<and> res \<noteq> Inr True)))"
proof (intro conjI impI)
  assume a: "0 < max_retries s
      \<and> (project_info s = JNull \<and> default_branch s = JNull
          \<or> cached_default s = Some (JStr (default_name (remote s))))
      \<and> map_of (heads (remote s)) b = Some old
      \<and> stdin s = line # rest \<and> (strip line = ''1'' \<or> strip line = [])
      \<and> create_branch gitlab_server b (JStr r) s = (Inr True, s')"
  then have "\<exists>c. heads (remote s') = (b, c) # filter (\<lambda>(n, c). n \<noteq> b) (heads (remote s))
           \<and> (r \<noteq> b \<and> map_of (heads (remote s)) r = Some c
              \<or> (r = b \<or> map_of (heads (remote s)) r = None)
                 \<and> r \<noteq> default_name (remote s) \<and> default_name (remote s) \<noteq> b
                 \<and> map_of (heads (remote s)) (default_name (remote s)) = Some c)"
    by (intro gl_create_branch_recreate [of s b old line rest r s']) simp_all
  then obtain c where c: "heads (remote s') = (b, c) # filter (\<lambda>(n, c). n \<noteq> b) (heads (remote s))"
    "r \<noteq> b \<and> map_of (heads (remote s)) r = Some c
       \<or> (r = b \<or> map_of (heads (remote s)) r = None)
          \<and> r \<noteq> default_name (remote s) \<and> default_name (remote s) \<noteq> b
          \<and> map_of (heads (remote s)) (default_name (remote s)) = Some c"
    by blast
  from c(1) have "length (filter (\<lambda>(n, c). n = b) (heads (remote s'))) = 1"
    by (simp only: count_recreated)
  with c show "\<exists>c. heads (remote s') = (b, c) # filter (\<lambda>(n, c). n \<noteq> b) (heads (remote s))
           \<and> length (filter (\<lambda>(n, c). n = b) (heads (remote s'))) = 1
           \<and> (r \<noteq> b \<and> map_of (heads (remote s)) r = Some c
              \<or> (r = b \<or> map_of (heads (remote s)) r = None)
                 \<and> r \<noteq> default_name (remote s) \<and> default_name (remote s) \<noteq> b
                 \<and> map_of (heads (remote s)) (default_name (remote s)) = Some c)"
    by blast
next
  assume a: "ref \<noteq> JNull \<and> fst (branch_exists srv b t) \<and> create_branch srv b ref t = (res, t')"
  obtain q1 t1 where res1: "resolve_existing srv b t = (q1, t1)" by (metis surj_pair)
  from resolve_existing_log [OF res1] a obtain pre where
    pre: "trace t1 = trace t @ pre" "creations b pre = []" "q1 = Inr True \<longrightarrow> deleted b pre"
    by auto
  show "\<exists>pre post. trace t' = trace t @ pre @ post
           \<and> creations b pre = []
           \<and> (creations b post \<noteq> [] \<longrightarrow> deleted b pre)
           \<and> (\<not> deleted b pre \<longrightarrow> post = [] \<and> res \<noteq> Inr True)"
  proof (cases "q1 = Inr True")
    case True
    with res1 a create_branch_after_resolve [of ref srv b t t1 res t'] obtain post where
      "trace t' = trace t1 @ post" by auto
    with pre True show ?thesis
      by (intro exI [of _ pre] exI [of _ post]) simp
  next
    case False
    with a res1 have "t' = t1 \<and> res \<noteq> Inr True"
      by (subst (asm) create_branch.simps) (auto split: sum.splits bool.splits)
    with pre show ?thesis
      by (intro exI [of _ pre] exI [of _ "[]"]) simp
  qed
qed


lemma recreate_from_main_run:
  "fst (create_branch gitlab_server ''feature/pipeops'' (JStr ''main'')
          (answering [''1''] (init_state two_branches))) = Inr True"
  by code_simp

lemma recreate_exists_run:
  "fst (branch_exists gitlab_server ''feature/pipeops''
          (answering [''1''] (init_state two_branches)))"
  by code_simp

theorem create_branch_delete_and_recreate_witness:
  "heads (remote (snd (create_branch gitlab_server ''feature/pipeops'' (JStr ''main'')
          (answering [''1''] (init_state two_branches)))))
     = [(''feature/pipeops'', 1), (''main'', 1)]
   \<and> (\<exists>pre post.
         trace (snd (create_branch gitlab_server ''feature/pipeops'' (JStr ''main'')
                  (answering [''1''] (init_state two_branches)))) = pre @ post
         \<and> creations ''feature/pipeops'' pre = [] \<and> deleted ''feature/pipeops'' pre)"
proof -
  define s0 where "s0 = answering [''1''] (init_state two_branches)"
  define s1 where "s1 = snd (create_branch gitlab_server ''feature/pipeops'' (JStr ''main'') s0)"
  have run: "create_branch gitlab_server ''feature/pipeops'' (JStr ''main'') s0 = (Inr True, s1)"
    using recreate_from_main_run by (simp add: prod_eq_iff s0_def s1_def)
  have ex: "fst (branch_exists gitlab_server ''feature/pipeops'' s0)"
    using recreate_exists_run by (simp add: s0_def)
  have pre1: "0 < max_retries s0
      \<and> (project_info s0 = JNull \<and> default_branch s0 = JNull
          \<or> cached_default s0 = Some (JStr (default_name (remote s0))))
      \<and> map_of (heads (remote s0)) ''feature/pipeops'' = Some 9
      \<and> stdin s0 = ''1'' # [] \<and> (strip ''1'' = ''1'' \<or> strip ''1'' = [])"
    by (simp add: s0_def answering_def init_state_def two_branches_def strip_def is_space_def)
  have pre2: "JStr ''main'' \<noteq> JNull" by simp
  note inst = create_branch_delete_and_recreate
    [where s = s0 and b = "''feature/pipeops''" and old = 9 and line = "''1''" and rest = "[]"
       and r = "''main''" and s' = s1 and ref = "JStr ''main''" and srv = gitlab_server
       and t = s0 and res = "Inr True" and t' = s1]
  from inst [THEN conjunct1] pre1 run obtain c where
    c: "heads (remote s1) = (''feature/pipeops'', c)
          # filter (\<lambda>(n, c). n \<noteq> ''feature/pipeops'') (heads (remote s0))"
      "''main'' \<noteq> ''feature/pipeops'' \<and> map_of (heads (remote s0)) ''main'' = Some c
       \<or> (''main'' = ''feature/pipeops'' \<or> map_of (heads (remote s0)) ''main'' = None)
          \<and> ''main'' \<noteq> default_name (remote s0) \<and> default_name (remote s0) \<noteq> ''feature/pipeops''
          \<and> map_of (heads (remote s0)) (default_name (remote s0)) = Some c"
    by blast
  from c(2) have "c = 1"
    by (simp add: s0_def answering_def init_state_def two_branches_def)
  with c(1) have h: "heads (remote s1) = [(''feature/pipeops'', 1), (''main'', 1)]"
    by (simp add: s0_def answering_def init_state_def two_branches_def)
  from inst [THEN conjunct2] pre2 ex run obtain pre post where
    p: "trace s1 = trace s0 @ pre @ post" "creations ''feature/pipeops'' pre = []"
      "\<not> deleted ''feature/pipeops'' pre \<longrightarrow> post = [] \<and> Inr True \<noteq> (Inr True :: exn + bool)"
    by blast
  from p(3) have "deleted ''feature/pipeops'' pre" by auto
  moreover have "trace s0 = []" by (simp add: s0_def answering_def init_state_def)
  ultimately show ?thesis using h p(1,2) unfolding s0_def s1_def by auto
qed


section \<open>Properties of the file actions\<close>

lemma pipeline_file_actions_planned:
  assumes fixed: "\<And>t. max_retries t = m \<Longrightarrow>
            \<exists>t'. get_file_list srv src t = (Inr listing, t') \<and> max_retries t' = m"
  shows "max_retries s = m \<Longrightarrow>
         pipeline_file_actions srv ev context tpath src file_names s = (r, s') \<Longrightarrow>
         max_retries s' = m \<and> r = planned_actions ev context tpath listing file_names"
proof (induction file_names arbitrary: s r s')
  case Nil
  then show ?case by simp
next
  case (Cons file_name rest)
  show ?case
  proof (cases "load_template_file ev (tpath @ ''/'' @ file_name)")
    case (Inl e)
    with Cons.prems show ?thesis by simp
  next
    case (Inr template_content)
    from fixed [OF Cons.prems(1)] obtain s1 where
      gl: "get_file_list srv src s = (Inr listing, s1)" and m1: "max_retries s1 = m"
      by blast
    then have ce: "check_file_exists_in_branch srv src file_name s
        = (JStr file_name \<in> set listing, s1)"
      by (simp add: check_file_exists_in_branch_def)
    obtain r2 s2 where rec: "pipeline_file_actions srv ev context tpath src rest s1 = (r2, s2)"
      by (metis surj_pair)
    from Cons.IH [OF m1 rec] have ih: "max_retries s2 = m"
      "r2 = planned_actions ev context tpath listing rest" by simp_all
    show ?thesis
    proof (cases "planned_actions ev context tpath listing rest")
      case pl: (Inl e)
      with rec ih(2) have "pipeline_file_actions srv ev context tpath src rest s1 = (Inl e, s2)"
        by simp
      with Cons.prems(2) Inr ce have "r = Inl e" "s' = s2" by simp_all
      with ih(1) Inr pl show ?thesis by simp
    next
      case pr: (Inr actions)
      with rec ih(2)
      have "pipeline_file_actions srv ev context tpath src rest s1 = (Inr actions, s2)"
        by simp
      with Cons.prems(2) Inr ce
      have "r = Inr (\<lparr>action = (if JStr file_name \<in> set listing then ''update'' else ''create''),
                        file_path = file_name,
                        content = render_template template_content context\<rparr> # actions)"
        "s' = s2" by simp_all
      with ih(1) Inr pr show ?thesis by (simp add: action_for_def)
    qed
  qed
qed

lemma planned_actions_shape:
  "planned_actions ev context tpath listing file_names = Inr actions \<Longrightarrow>
   map file_path actions = file_names
   \<and> map action actions = map (action_for listing) file_names"
proof (induction file_names arbitrary: actions)
  case Nil
  then show ?case by simp
next
  case (Cons file_name rest)
  then show ?case by (auto split: sum.splits)
qed

text \<open>
  Claim C7. Let every listing of the source branch return the same list of paths. Then
  the result of \<^verbatim>\<open>_create_pipeline_files\<close> is a function of that listing: it is the same
  in whatever state the client starts (with the same number of attempts configured), so in
  particular when the method is run again after itself; and when it is a list of actions,
  these are the files of the pipeline type in order, each with \<open>update\<close> if its path is in
  the listing and with \<open>create\<close> if it is not.
\<close>

theorem create_pipeline_files_deterministic:
  assumes fixed: "\<And>t. max_retries t = max_retries s \<Longrightarrow>
            \<exists>t'. get_file_list srv src t = (Inr listing, t') \<and> max_retries t' = max_retries s"
    and known: "map_of (pipelines cfg) (pd_type pd) = Some pc"
  shows "(\<forall>t. max_retries t = max_retries s \<longrightarrow>
            fst (create_pipeline_files srv ev pd cfg src t)
              = fst (create_pipeline_files srv ev pd cfg src s))
       \<and> fst (create_pipeline_files srv ev pd cfg src
                (snd (create_pipeline_files srv ev pd cfg src s)))
           = fst (create_pipeline_files srv ev pd cfg src s)
       \<and> (\<forall>actions. fst (create_pipeline_files srv ev pd cfg src s) = Inr actions \<longrightarrow>
            map file_path actions = files_to_create pc
            \<and> map action actions
                = map (\<lambda>path. if JStr path \<in> set listing then ''update'' else ''create'')
                    (files_to_create pc))"
proof -
  have run: "max_retries (snd (create_pipeline_files srv ev pd cfg src t)) = max_retries s
      \<and> fst (create_pipeline_files srv ev pd cfg src t)
          = planned_actions ev (prepare_context ev pd) (template_path pc) listing
              (files_to_create pc)"
    if "max_retries t = max_retries s" for t
  proof -
    obtain r t' where
      p: "pipeline_file_actions srv ev (prepare_context ev pd) (template_path pc) src
            (files_to_create pc) t = (r, t')"
      by (metis surj_pair)
    from pipeline_file_actions_planned [OF fixed that p] p known show ?thesis
      by (simp add: create_pipeline_files_def)
  qed
  have here: "max_retries (snd (create_pipeline_files srv ev pd cfg src s)) = max_retries s"
    "fst (create_pipeline_files srv ev pd cfg src s)
       = planned_actions ev (prepare_context ev pd) (template_path pc) listing
           (files_to_create pc)"
    using run [of s] by simp_all
  have c1: "\<forall>t. max_retries t = max_retries s \<longrightarrow>
            fst (create_pipeline_files srv ev pd cfg src t)
              = fst (create_pipeline_files srv ev pd cfg src s)"
    using run here(2) by simp
  have c2: "fst (create_pipeline_files srv ev pd cfg src
                (snd (create_pipeline_files srv ev pd cfg src s)))
           = fst (create_pipeline_files srv ev pd cfg src s)"
    using run [OF here(1)] here(2) by simp
  have c3: "\<forall>actions. fst (create_pipeline_files srv ev pd cfg src s) = Inr actions \<longrightarrow>
            map file_path actions = files_to_create pc
            \<and> map action actions
                = map (\<lambda>path. if JStr path \<in> set listing then ''update'' else ''create'')
                    (files_to_create pc)"
  proof (intro allI impI)
    fix actions assume a: "fst (create_pipeline_files srv ev pd cfg src s) = Inr actions"
    with here(2) have "planned_actions ev (prepare_context ev pd) (template_path pc) listing
        (files_to_create pc) = Inr actions" by simp
    from planned_actions_shape [OF this]
    show "map file_path actions = files_to_create pc
            \<and> map action actions
                = map (\<lambda>path. if JStr path \<in> set listing then ''update'' else ''create'')
                    (files_to_create pc)"
      by (simp add: action_for_def)
  qed
  from c1 c2 c3 show ?thesis by blast
qed


lemma main_listing_fixed:
  assumes "max_retries t = 3"
  shows "\<exists>t'. get_file_list (table_server main_only_table) (JStr ''main'') t
              = (Inr [JStr ''app.py''], t')
           \<and> max_retries t' = 3"
proof -
  have attempts: "[0 ..< (3::nat)] = [0, 1, 2]" by (simp add: upt_rec)
  have "simple_retry (make_request (table_server main_only_table) (GetTree (JStr ''main''))) t
      = (Inr (Some (JArr [JObj [(''type'', JStr ''blob''), (''path'', JStr ''app.py'')],
                          JObj [(''type'', JStr ''tree''), (''path'', JStr ''src'')]])),
         t\<lparr>now := now t + 1,
           trace := trace t @ [Sent (GetTree (JStr ''main''))
             (Reply 200 (Some (JArr [JObj [(''type'', JStr ''blob''), (''path'', JStr ''app.py'')],
                          JObj [(''type'', JStr ''tree''), (''path'', JStr ''src'')]])))],
           remote := ()\<rparr>)"
    using assms
    by (simp add: simple_retry_def attempts make_request_def table_server_def raise_for_reply_def)
  then show ?thesis
    using assms
    by (subst get_file_list.simps) (simp add: blob_paths_def response_json_def ebind_def)
qed

lemma demo_actions_run:
  "fst (create_pipeline_files (table_server main_only_table) demo_env demo_project demo_config
          (JStr ''main'') (init_state ()))
   = Inr [\<lparr>action = ''update'', file_path = ''app.py'', content = ''# app''\<rparr>,
          \<lparr>action = ''create'', file_path = ''.gitlab-ci.yml'', content = ''image: python''\<rparr>]"
  by code_simp

theorem create_pipeline_files_deterministic_witness:
  "fst (create_pipeline_files (table_server main_only_table) demo_env demo_project demo_config
          (JStr ''main'')
          (snd (create_pipeline_files (table_server main_only_table) demo_env demo_project
                  demo_config (JStr ''main'') (init_state ()))))
   = fst (create_pipeline_files (table_server main_only_table) demo_env demo_project demo_config
            (JStr ''main'') (init_state ()))
   \<and> (\<exists>actions.
         fst (create_pipeline_files (table_server main_only_table) demo_env demo_project
                demo_config (JStr ''main'') (init_state ())) = Inr actions
         \<and> map file_path actions = [''app.py'', ''.gitlab-ci.yml'']
         \<and> map action actions = [''update'', ''create''])"
proof -
  have fixed: "\<And>t. max_retries t = max_retries (init_state ()) \<Longrightarrow>
      \<exists>t'. get_file_list (table_server main_only_table) (JStr ''main'') t
              = (Inr [JStr ''app.py''], t')
           \<and> max_retries t' = max_retries (init_state ())"
    using main_listing_fixed by (simp add: init_state_def)
  have known: "map_of (pipelines demo_config) (pd_type demo_project)
      = Some \<lparr>template_path = ''templates/python_service'', required_env = [''OC_TOKEN''],
           files_to_create = [''app.py'', ''.gitlab-ci.yml'']\<rparr>"
    by (simp add: demo_config_def demo_project_def)
  note inst = create_pipeline_files_deterministic [OF fixed known, of demo_env]
  from inst demo_actions_run show ?thesis by simp
qed


end
